theory Spec2Isabelle
  imports Main
begin

unbundle bit_operations_syntax

section \<open>Package log: constants (logconst.go)\<close>

text \<open>
  Go's \<open>int\<close> is modelled as \<open>int\<close>. The only arithmetic of the logger that could
  leave the machine range is \<open>'0' + i\<close> in \<open>itoa\<close>, whose result is cut to a byte at
  once, so wrap-around never shows. Where a claim needs a value to be a machine integer,
  the predicate \<open>go_int\<close> below says so. A Go string is a sequence of bytes: \<open>string\<close>.
\<close>

definition MaxContextLen :: int where
  "MaxContextLen = 66"

text \<open>
  The declaration of the type \<open>Level\<close> and its methods \<open>String\<close> and \<open>Color\<close> are not
  in the source files at hand; the constants below give it as an integer type numbered by
  \<open>iota\<close>. The two methods and the flag bit \<open>LLevel\<close>, also declared elsewhere, are
  parameters of the model (record \<open>LevelDecl\<close>).
\<close>

type_synonym Level = int

definition PanicLevel :: Level where "PanicLevel = 0"
definition FatalLevel :: Level where "FatalLevel = 1"
definition ErrorLevel :: Level where "ErrorLevel = 2"
definition WarnLevel :: Level where "WarnLevel = 3"
definition InfoLevel :: Level where "InfoLevel = 4"
definition DebugLevel :: Level where "DebugLevel = 5"
definition VerboseLevel :: Level where "VerboseLevel = 6"

definition Ldate :: int where "Ldate = push_bit 0 1"
definition Ltime :: int where "Ltime = push_bit 1 1"
definition Lmicroseconds :: int where "Lmicroseconds = push_bit 2 1"
definition Llongfile :: int where "Llongfile = push_bit 3 1"
definition Lshortfile :: int where "Lshortfile = push_bit 4 1"
definition LUTC :: int where "LUTC = push_bit 5 1"
definition LstdFlags :: int where "LstdFlags = Ldate OR Ltime"

definition IsTerminal :: int where "IsTerminal = 0"
definition NotTerminal :: int where "NotTerminal = 1"

record LevelDecl =
  LLevel :: int
  String :: "Level \<Rightarrow> string"
  Color :: "Level \<Rightarrow> int"

section \<open>The world outside the package\<close>

text \<open>
  An \<open>io.Writer\<close> is any value with a \<open>Write\<close> method. The model keeps the history of
  the byte slices it was handed (\<open>written\<close>) and lets the error it answers with depend on
  that history and on the slice (\<open>respond\<close>); \<open>None\<close> is Go's \<open>nil\<close> error.
\<close>

datatype error = Err string

record Writer =
  written :: "string list"
  respond :: "string list \<Rightarrow> string \<Rightarrow> error option"

definition Write :: "Writer \<Rightarrow> string \<Rightarrow> Writer \<times> error option" where
  "Write w p = (w\<lparr>written := written w @ [p]\<rparr>, respond w (written w) p)"

text \<open>
  A \<open>time.Time\<close> is read through \<open>Date\<close>, \<open>Clock\<close> and \<open>Nanosecond\<close> only, in its
  own location or, after \<open>UTC\<close>, in UTC: the model holds both readings.
\<close>

record Fields =
  Year :: int
  Month :: int
  Day :: int
  Hour :: int
  Minute :: int
  Second :: int
  Nsec :: int

record Time =
  loc :: Fields
  utc :: Fields

definition UTC :: "Time \<Rightarrow> Time" where
  "UTC t = t\<lparr>loc := utc t\<rparr>"

definition Date :: "Time \<Rightarrow> int \<times> int \<times> int" where
  "Date t = (Year (loc t), Month (loc t), Day (loc t))"

definition Clock :: "Time \<Rightarrow> int \<times> int \<times> int" where
  "Clock t = (Hour (loc t), Minute (loc t), Second (loc t))"

definition Nanosecond :: "Time \<Rightarrow> int" where
  "Nanosecond t = Nsec (loc t)"

text \<open>
  \<open>time.Now\<close> and \<open>runtime.Caller\<close> are inputs: \<open>Caller\<close> answers a call depth with
  the file, the line and the \<open>ok\<close> flag (the program counter is dropped by the code).
\<close>

record Runtime =
  Now :: Time
  Caller :: "int \<Rightarrow> string \<times> int \<times> bool"

text \<open>The three formatting functions of package \<open>fmt\<close>, over any argument type.\<close>

record 'a Fmt =
  Sprintf :: "string \<Rightarrow> 'a list \<Rightarrow> string"
  Sprint :: "'a list \<Rightarrow> string"
  Sprintln :: "'a list \<Rightarrow> string"

section \<open>The Logger\<close>

text \<open>The mutex is left out: the model is sequential, one call at a time.\<close>

record Logger =
  contentPrefix :: string
  prefix :: string
  suffix :: string
  flag :: int
  buf :: string
  level :: Level
  out :: Writer
  isTerminal :: int
  callDepth :: int

definition New :: "Writer \<Rightarrow> string \<Rightarrow> string \<Rightarrow> int \<Rightarrow> Level \<Rightarrow> int \<Rightarrow> Logger" where
  "New out' prefix' suffix' flag' level' isTerminal' =
     \<lparr>contentPrefix = [], prefix = prefix', suffix = suffix', flag = flag', buf = [],
      level = level', out = out', isTerminal = isTerminal', callDepth = 2\<rparr>"

definition SetCallDepth :: "Logger \<Rightarrow> int \<Rightarrow> Logger" where
  "SetCallDepth l callDepth' = l\<lparr>callDepth := callDepth'\<rparr>"

definition SetIsTerminal :: "Logger \<Rightarrow> int \<Rightarrow> Logger" where
  "SetIsTerminal l isTerminal' = l\<lparr>isTerminal := isTerminal'\<rparr>"

definition SetOutput :: "Logger \<Rightarrow> Writer \<Rightarrow> Logger" where
  "SetOutput l w = l\<lparr>out := w\<rparr>"

definition Level :: "Logger \<Rightarrow> Level" where
  "Level l = level l"

definition SetLevel :: "Logger \<Rightarrow> Level \<Rightarrow> Logger" where
  "SetLevel l level' = l\<lparr>level := level'\<rparr>"

definition Flags :: "Logger \<Rightarrow> int" where
  "Flags l = flag l"

definition SetFlags :: "Logger \<Rightarrow> int \<Rightarrow> Logger" where
  "SetFlags l flag' = l\<lparr>flag := flag'\<rparr>"

definition Prefix :: "Logger \<Rightarrow> string" where
  "Prefix l = prefix l"

definition SetPrefix :: "Logger \<Rightarrow> string \<Rightarrow> Logger" where
  "SetPrefix l prefix' = l\<lparr>prefix := prefix'\<rparr>"

definition ContentPrefix :: "Logger \<Rightarrow> string" where
  "ContentPrefix l = contentPrefix l"

definition SetContentPrefix :: "Logger \<Rightarrow> string \<Rightarrow> Logger" where
  "SetContentPrefix l prefix' = l\<lparr>contentPrefix := prefix'\<rparr>"

definition Suffix :: "Logger \<Rightarrow> string" where
  "Suffix l = suffix l"

definition SetSuffix :: "Logger \<Rightarrow> string \<Rightarrow> Logger" where
  "SetSuffix l suffix' = l\<lparr>suffix := suffix'\<rparr>"

section \<open>Rendering the header\<close>

text \<open>Go's integer division truncates towards zero.\<close>

definition go_div :: "int \<Rightarrow> int \<Rightarrow> int" where
  "go_div a b =
     (if (a < 0) = (b < 0) then \<bar>a\<bar> div \<bar>b\<bar> else - (\<bar>a\<bar> div \<bar>b\<bar>))"

text \<open>
  The loop of \<open>itoa\<close>. The list \<open>b\<close> is the filled part \<open>b[bp+1:]\<close> of the 20-byte
  array, so \<open>bp = 19 - length b\<close>, and a store to \<open>b[bp]\<close> with \<open>bp < 0\<close> is Go's
  index-out-of-range panic: \<open>None\<close>. The conversion \<open>byte(...)\<close> keeps the low 8
  bits, as \<open>char_of\<close> does.
\<close>

function itoa_loop :: "int \<Rightarrow> int \<Rightarrow> string \<Rightarrow> string option" where
  "itoa_loop i wid b =
     (if i \<ge> 10 \<or> wid > 1 then
        (if length b \<ge> 20 then None
         else let q = go_div i 10
              in itoa_loop q (wid - 1) (char_of (48 + i - q * 10) # b))
      else
        (if length b \<ge> 20 then None
         else Some (char_of (48 + i) # b)))"
  by pat_completeness auto
termination
  by (relation "measure (\<lambda>(i, wid, b). 20 - length b)") auto

text \<open>
  A step on the buffer either completes (\<open>Inr\<close>, the new buffer) or panics with an
  index out of range (\<open>Inl\<close>, the buffer as the panic left it).
\<close>

definition itoa :: "string \<Rightarrow> int \<Rightarrow> int \<Rightarrow> string + string" where
  "itoa bufp i wid =
     (case itoa_loop i wid [] of None \<Rightarrow> Inl bufp | Some ds \<Rightarrow> Inr (bufp @ ds))"

definition andThen :: "string + string \<Rightarrow> (string \<Rightarrow> string + string) \<Rightarrow> string + string" where
  "andThen r f = (case r of Inl b \<Rightarrow> Inl b | Inr b \<Rightarrow> f b)"

text \<open>The verb \<open>%d\<close> of \<open>fmt.Sprintf\<close>: decimal, with a minus sign when negative.\<close>

function decimal :: "nat \<Rightarrow> string" where
  "decimal n =
     (if n < 10 then [char_of (48 + n)] else decimal (n div 10) @ [char_of (48 + n mod 10)])"
  by pat_completeness auto
termination
  by (relation "measure id") auto

definition Sprintf_d :: "int \<Rightarrow> string" where
  "Sprintf_d i = (if i < 0 then CHR ''-'' # decimal (nat (- i)) else decimal (nat i))"

text \<open>
  The loop that cuts the directories off a file name, from \<open>i = len(file) - 1\<close> down
  while \<open>i > 0\<close>.
\<close>

fun short_loop :: "string \<Rightarrow> nat \<Rightarrow> string" where
  "short_loop file 0 = file"
| "short_loop file (Suc i) =
     (if file ! Suc i = CHR ''/'' then drop (Suc i + 1) file else short_loop file i)"

text \<open>
  \<open>formatHeader\<close> appends to the buffer in three steps, one per top-level \<open>if\<close> of
  the source: the level tag (after the prefix), the date and time, the file and line.
\<close>

definition levelTag :: "LevelDecl \<Rightarrow> Logger \<Rightarrow> string \<Rightarrow> Level \<Rightarrow> string" where
  "levelTag P l b lv =
     (if flag l AND LLevel P \<noteq> 0 then
        let levelString =
              (if isTerminal l = IsTerminal then
                 CHR 0x1B # ''['' @ Sprintf_d (Color P lv) @ ''m'' @ String P lv
                   @ CHR 0x1B # ''[0m''
               else String P lv)
        in b @ levelString @ '' ''
      else b)"

definition dateTime :: "Logger \<Rightarrow> string \<Rightarrow> Time \<Rightarrow> string + string" where
  "dateTime l b0 t0 =
     (if flag l AND (Ldate OR Ltime OR Lmicroseconds) \<noteq> 0 then
        let t = (if flag l AND LUTC \<noteq> 0 then UTC t0 else t0)
        in andThen
             (if flag l AND Ldate \<noteq> 0 then
                (case Date t of (year, month, day) \<Rightarrow>
                   andThen (itoa b0 year 4) (\<lambda>b.
                   andThen (itoa (b @ ''/'') month 2) (\<lambda>b.
                   andThen (itoa (b @ ''/'') day 2) (\<lambda>b.
                   Inr (b @ '' '')))))
              else Inr b0)
             (\<lambda>b.
                if flag l AND (Ltime OR Lmicroseconds) \<noteq> 0 then
                  (case Clock t of (hour, minute, sec) \<Rightarrow>
                     andThen (itoa b hour 2) (\<lambda>b.
                     andThen (itoa (b @ '':'') minute 2) (\<lambda>b.
                     andThen (itoa (b @ '':'') sec 2) (\<lambda>b.
                     andThen
                       (if flag l AND Lmicroseconds \<noteq> 0 then
                          itoa (b @ ''.'') (go_div (Nanosecond t) 1000) 6
                        else Inr b)
                       (\<lambda>b. Inr (b @ '' ''))))))
                else Inr b)
      else Inr b0)"

definition fileLine :: "Logger \<Rightarrow> string \<Rightarrow> string \<Rightarrow> int \<Rightarrow> string + string" where
  "fileLine l b file0 line =
     (if flag l AND (Lshortfile OR Llongfile) \<noteq> 0 then
        let file =
              (if flag l AND Lshortfile \<noteq> 0 then short_loop file0 (length file0 - 1)
               else file0)
        in andThen (itoa (b @ file @ '':'') line (- 1)) (\<lambda>b. Inr (b @ '': ''))
      else Inr b)"

definition formatHeader ::
  "LevelDecl \<Rightarrow> Logger \<Rightarrow> string \<Rightarrow> Time \<Rightarrow> string \<Rightarrow> int \<Rightarrow> Level \<Rightarrow> string + string" where
  "formatHeader P l bufp t file line lv =
     andThen (dateTime l (levelTag P l (bufp @ prefix l) lv) t)
       (\<lambda>b. fileLine l b file line)"

section \<open>Output\<close>

text \<open>
  How a call ends: it returns, it panics (with the string handed to \<open>panic\<close>, or with the
  run-time error of an index out of range), or the process exits with a status.
\<close>

datatype panic_value = PanicString string | IndexOutOfRange

datatype 'a outcome = Returns 'a | Panics panic_value | Exits int

text \<open>The file and line that \<open>Output\<close> hands to \<open>formatHeader\<close>.\<close>

definition callerInfo :: "Runtime \<Rightarrow> Logger \<Rightarrow> int \<Rightarrow> string \<times> int" where
  "callerInfo R l calldepth =
     (if flag l AND (Lshortfile OR Llongfile) \<noteq> 0 then
        (case Caller R calldepth of (file, line, ok) \<Rightarrow>
           if \<not> ok then (''???'', 0) else (file, line))
      else ([], 0))"

definition Output ::
  "Runtime \<Rightarrow> LevelDecl \<Rightarrow> Logger \<Rightarrow> int \<Rightarrow> string \<Rightarrow> Level \<Rightarrow> Logger \<times> error option outcome" where
  "Output R P l calldepth s lv =
     (let now = Now R;
          (file, line) = callerInfo R l calldepth
      in case formatHeader P l [] now file line lv of
           Inl b \<Rightarrow> (l\<lparr>buf := b\<rparr>, Panics IndexOutOfRange)
         | Inr b \<Rightarrow>
             (let b = (if length (contentPrefix l) > 0 then b @ contentPrefix l else b);
                  sLen = int (length s);
                  (b, sLen) =
                    (if length s > 0 \<and> s ! (length s - 1) = CHR 0x0A
                     then (b @ take (length s - 1) s, sLen - 1)
                     else (b @ s, sLen));
                  b = (if length (suffix l) > 0 then
                         (if sLen < MaxContextLen
                          then b @ replicate (nat (MaxContextLen - sLen)) CHR '' ''
                          else b) @ suffix l
                       else b);
                  b = (if length b = 0 \<or> b ! (length b - 1) \<noteq> CHR 0x0A
                       then b @ [CHR 0x0A] else b);
                  (w, err) = Write (out l) b
              in (l\<lparr>buf := b, out := w\<rparr>, Returns err)))"

section \<open>The methods that emit\<close>

text \<open>
  The state of a program that logs: its Logger, and how many times it has called one of
  the formatting functions of \<open>fmt\<close>, so that a call that formats nothing can be told
  from one that formats and writes nothing.
\<close>

record State =
  logger :: Logger
  formatted :: nat

definition fmt_call :: "State \<Rightarrow> string \<Rightarrow> string \<times> State" where
  "fmt_call st s = (s, st\<lparr>formatted := formatted st + 1\<rparr>)"

text \<open>The statement \<open>l.Output(l.callDepth, s, lv)\<close>: the error it returns is dropped.\<close>

definition call_Output ::
  "Runtime \<Rightarrow> LevelDecl \<Rightarrow> State \<Rightarrow> string \<Rightarrow> Level \<Rightarrow> State \<times> unit outcome" where
  "call_Output R P st s lv =
     (case Output R P (logger st) (callDepth (logger st)) s lv of
        (l', Returns err) \<Rightarrow> (st\<lparr>logger := l'\<rparr>, Returns ())
      | (l', Panics v) \<Rightarrow> (st\<lparr>logger := l'\<rparr>, Panics v)
      | (l', Exits c) \<Rightarrow> (st\<lparr>logger := l'\<rparr>, Exits c))"

definition Panic ::
  "'a Fmt \<Rightarrow> Runtime \<Rightarrow> LevelDecl \<Rightarrow> State \<Rightarrow> 'a list \<Rightarrow> State \<times> unit outcome" where
  "Panic F R P st v =
     (let (s, st) = fmt_call st (Sprint F v)
      in case call_Output R P st s PanicLevel of
           (st, Returns u) \<Rightarrow> (st, Panics (PanicString s))
         | (st, r) \<Rightarrow> (st, r))"

definition Panicf ::
  "'a Fmt \<Rightarrow> Runtime \<Rightarrow> LevelDecl \<Rightarrow> State \<Rightarrow> string \<Rightarrow> 'a list \<Rightarrow> State \<times> unit outcome" where
  "Panicf F R P st format v =
     (let (s, st) = fmt_call st (Sprintf F format v)
      in case call_Output R P st s PanicLevel of
           (st, Returns u) \<Rightarrow> (st, Panics (PanicString s))
         | (st, r) \<Rightarrow> (st, r))"

definition Panicln ::
  "'a Fmt \<Rightarrow> Runtime \<Rightarrow> LevelDecl \<Rightarrow> State \<Rightarrow> 'a list \<Rightarrow> State \<times> unit outcome" where
  "Panicln F R P st v =
     (let (s, st) = fmt_call st (Sprintln F v)
      in case call_Output R P st s PanicLevel of
           (st, Returns u) \<Rightarrow> (st, Panics (PanicString s))
         | (st, r) \<Rightarrow> (st, r))"

definition Fatal ::
  "'a Fmt \<Rightarrow> Runtime \<Rightarrow> LevelDecl \<Rightarrow> State \<Rightarrow> 'a list \<Rightarrow> State \<times> unit outcome" where
  "Fatal F R P st v =
     (let (s, st) = fmt_call st (Sprint F v)
      in case call_Output R P st s FatalLevel of
           (st, Returns u) \<Rightarrow> (st, Exits 1)
         | (st, r) \<Rightarrow> (st, r))"

definition Fatalf ::
  "'a Fmt \<Rightarrow> Runtime \<Rightarrow> LevelDecl \<Rightarrow> State \<Rightarrow> string \<Rightarrow> 'a list \<Rightarrow> State \<times> unit outcome" where
  "Fatalf F R P st format v =
     (let (s, st) = fmt_call st (Sprintf F format v)
      in case call_Output R P st s FatalLevel of
           (st, Returns u) \<Rightarrow> (st, Exits 1)
         | (st, r) \<Rightarrow> (st, r))"

definition Fatalln ::
  "'a Fmt \<Rightarrow> Runtime \<Rightarrow> LevelDecl \<Rightarrow> State \<Rightarrow> 'a list \<Rightarrow> State \<times> unit outcome" where
  "Fatalln F R P st v =
     (let (s, st) = fmt_call st (Sprintln F v)
      in case call_Output R P st s FatalLevel of
           (st, Returns u) \<Rightarrow> (st, Exits 1)
         | (st, r) \<Rightarrow> (st, r))"

definition Error ::
  "'a Fmt \<Rightarrow> Runtime \<Rightarrow> LevelDecl \<Rightarrow> State \<Rightarrow> string \<Rightarrow> 'a list \<Rightarrow> State \<times> unit outcome" where
  "Error F R P st0 format v =
     (if level (logger st0) \<ge> ErrorLevel then
        let (s, st) = fmt_call st0 (Sprintf F format v)
        in call_Output R P st s ErrorLevel
      else (st0, Returns ()))"

definition Errorf ::
  "'a Fmt \<Rightarrow> Runtime \<Rightarrow> LevelDecl \<Rightarrow> State \<Rightarrow> string \<Rightarrow> 'a list \<Rightarrow> State \<times> unit outcome" where
  "Errorf F R P st0 format v =
     (if level (logger st0) \<ge> ErrorLevel then
        let (s, st) = fmt_call st0 (Sprintf F format v)
        in call_Output R P st s ErrorLevel
      else (st0, Returns ()))"

definition Errorln ::
  "'a Fmt \<Rightarrow> Runtime \<Rightarrow> LevelDecl \<Rightarrow> State \<Rightarrow> 'a list \<Rightarrow> State \<times> unit outcome" where
  "Errorln F R P st0 v =
     (if level (logger st0) \<ge> ErrorLevel then
        let (s, st) = fmt_call st0 (Sprintln F v)
        in call_Output R P st s ErrorLevel
      else (st0, Returns ()))"

definition Warn ::
  "'a Fmt \<Rightarrow> Runtime \<Rightarrow> LevelDecl \<Rightarrow> State \<Rightarrow> string \<Rightarrow> 'a list \<Rightarrow> State \<times> unit outcome" where
  "Warn F R P st0 format v =
     (if level (logger st0) \<ge> WarnLevel then
        let (s, st) = fmt_call st0 (Sprintf F format v)
        in call_Output R P st s WarnLevel
      else (st0, Returns ()))"

definition Warnf ::
  "'a Fmt \<Rightarrow> Runtime \<Rightarrow> LevelDecl \<Rightarrow> State \<Rightarrow> string \<Rightarrow> 'a list \<Rightarrow> State \<times> unit outcome" where
  "Warnf F R P st0 format v =
     (if level (logger st0) \<ge> WarnLevel then
        let (s, st) = fmt_call st0 (Sprintf F format v)
        in call_Output R P st s WarnLevel
      else (st0, Returns ()))"

definition Warnln ::
  "'a Fmt \<Rightarrow> Runtime \<Rightarrow> LevelDecl \<Rightarrow> State \<Rightarrow> 'a list \<Rightarrow> State \<times> unit outcome" where
  "Warnln F R P st0 v =
     (if level (logger st0) \<ge> WarnLevel then
        let (s, st) = fmt_call st0 (Sprintln F v)
        in call_Output R P st s WarnLevel
      else (st0, Returns ()))"

definition Info ::
  "'a Fmt \<Rightarrow> Runtime \<Rightarrow> LevelDecl \<Rightarrow> State \<Rightarrow> string \<Rightarrow> 'a list \<Rightarrow> State \<times> unit outcome" where
  "Info F R P st0 format v =
     (if level (logger st0) \<ge> InfoLevel then
        let (s, st) = fmt_call st0 (Sprintf F format v)
        in call_Output R P st s InfoLevel
      else (st0, Returns ()))"

definition Infof ::
  "'a Fmt \<Rightarrow> Runtime \<Rightarrow> LevelDecl \<Rightarrow> State \<Rightarrow> string \<Rightarrow> 'a list \<Rightarrow> State \<times> unit outcome" where
  "Infof F R P st0 format v =
     (if level (logger st0) \<ge> InfoLevel then
        let (s, st) = fmt_call st0 (Sprintf F format v)
        in call_Output R P st s InfoLevel
      else (st0, Returns ()))"

definition Infoln ::
  "'a Fmt \<Rightarrow> Runtime \<Rightarrow> LevelDecl \<Rightarrow> State \<Rightarrow> 'a list \<Rightarrow> State \<times> unit outcome" where
  "Infoln F R P st0 v =
     (if level (logger st0) \<ge> InfoLevel then
        let (s, st) = fmt_call st0 (Sprintln F v)
        in call_Output R P st s InfoLevel
      else (st0, Returns ()))"

definition Debug ::
  "'a Fmt \<Rightarrow> Runtime \<Rightarrow> LevelDecl \<Rightarrow> State \<Rightarrow> string \<Rightarrow> 'a list \<Rightarrow> State \<times> unit outcome" where
  "Debug F R P st0 format v =
     (if level (logger st0) \<ge> DebugLevel then
        let (s, st) = fmt_call st0 (Sprintf F format v)
        in call_Output R P st s DebugLevel
      else (st0, Returns ()))"

definition Debugf ::
  "'a Fmt \<Rightarrow> Runtime \<Rightarrow> LevelDecl \<Rightarrow> State \<Rightarrow> string \<Rightarrow> 'a list \<Rightarrow> State \<times> unit outcome" where
  "Debugf F R P st0 format v =
     (if level (logger st0) \<ge> DebugLevel then
        let (s, st) = fmt_call st0 (Sprintf F format v)
        in call_Output R P st s DebugLevel
      else (st0, Returns ()))"

definition Debugln ::
  "'a Fmt \<Rightarrow> Runtime \<Rightarrow> LevelDecl \<Rightarrow> State \<Rightarrow> 'a list \<Rightarrow> State \<times> unit outcome" where
  "Debugln F R P st0 v =
     (if level (logger st0) \<ge> DebugLevel then
        let (s, st) = fmt_call st0 (Sprintln F v)
        in call_Output R P st s DebugLevel
      else (st0, Returns ()))"

definition Verbose ::
  "'a Fmt \<Rightarrow> Runtime \<Rightarrow> LevelDecl \<Rightarrow> State \<Rightarrow> string \<Rightarrow> 'a list \<Rightarrow> State \<times> unit outcome" where
  "Verbose F R P st0 format v =
     (if level (logger st0) \<ge> VerboseLevel then
        let (s, st) = fmt_call st0 (Sprintf F format v)
        in call_Output R P st s VerboseLevel
      else (st0, Returns ()))"

definition Verbosef ::
  "'a Fmt \<Rightarrow> Runtime \<Rightarrow> LevelDecl \<Rightarrow> State \<Rightarrow> string \<Rightarrow> 'a list \<Rightarrow> State \<times> unit outcome" where
  "Verbosef F R P st0 format v =
     (if level (logger st0) \<ge> VerboseLevel then
        let (s, st) = fmt_call st0 (Sprintf F format v)
        in call_Output R P st s VerboseLevel
      else (st0, Returns ()))"

definition Verboseln ::
  "'a Fmt \<Rightarrow> Runtime \<Rightarrow> LevelDecl \<Rightarrow> State \<Rightarrow> 'a list \<Rightarrow> State \<times> unit outcome" where
  "Verboseln F R P st0 v =
     (if level (logger st0) \<ge> VerboseLevel then
        let (s, st) = fmt_call st0 (Sprintln F v)
        in call_Output R P st s VerboseLevel
      else (st0, Returns ()))"

definition Print ::
  "'a Fmt \<Rightarrow> Runtime \<Rightarrow> LevelDecl \<Rightarrow> State \<Rightarrow> 'a list \<Rightarrow> State \<times> unit outcome" where
  "Print F R P st0 v =
     (let (s, st) = fmt_call st0 (Sprint F v)
      in call_Output R P st s (level (logger st0)))"

definition Printf ::
  "'a Fmt \<Rightarrow> Runtime \<Rightarrow> LevelDecl \<Rightarrow> State \<Rightarrow> string \<Rightarrow> 'a list \<Rightarrow> State \<times> unit outcome" where
  "Printf F R P st0 format v =
     (let (s, st) = fmt_call st0 (Sprintf F format v)
      in call_Output R P st s (level (logger st0)))"

definition Println ::
  "'a Fmt \<Rightarrow> Runtime \<Rightarrow> LevelDecl \<Rightarrow> State \<Rightarrow> 'a list \<Rightarrow> State \<times> unit outcome" where
  "Println F R P st0 v =
     (let (s, st) = fmt_call st0 (Sprintln F v)
      in call_Output R P st s (level (logger st0)))"

section \<open>Package uhash (hashmd5.go)\<close>

text \<open>
  A \<open>[]byte\<close> is a sequence of bytes like a string, and \<open>[]byte(str)\<close> keeps the
  bytes. Package \<open>crypto/md5\<close> is not part of the repository: the hasher is a parameter,
  a value \<open>md5_New\<close> with the methods \<open>Write\<close> and \<open>Sum\<close> of \<open>hash.Hash\<close>.
\<close>

record 'h Hasher =
  md5_New :: 'h
  hasher_Write :: "'h \<Rightarrow> string \<Rightarrow> 'h \<times> int \<times> error option"
  hasher_Sum :: "'h \<Rightarrow> string \<Rightarrow> string"

definition hextable :: string where
  "hextable = ''0123456789abcdef''"

text \<open>\<open>hex.EncodeToString\<close>: two digits for each byte, the high half first.\<close>

fun EncodeToString :: "string \<Rightarrow> string" where
  "EncodeToString [] = []"
| "EncodeToString (v # src) =
     hextable ! drop_bit 4 (of_char v :: nat) # hextable ! ((of_char v :: nat) AND 15)
       # EncodeToString src"

definition MD5 :: "'h Hasher \<Rightarrow> string \<Rightarrow> string \<times> error option" where
  "MD5 H data =
     (let hasher = md5_New H;
          (hasher, n, err) = hasher_Write H hasher data
      in if err \<noteq> None then ([], err)
         else (EncodeToString (hasher_Sum H hasher []), None))"

definition MD5String :: "'h Hasher \<Rightarrow> string \<Rightarrow> string \<times> error option" where
  "MD5String H str = MD5 H str"

section \<open>Vocabulary of the properties\<close>

text \<open>A value of Go's type \<open>int\<close> (64 bits).\<close>

definition go_int :: "int \<Rightarrow> bool" where
  "go_int i \<longleftrightarrow> - (2 ^ 63) \<le> i \<and> i < 2 ^ 63"

definition go_Fields :: "Fields \<Rightarrow> bool" where
  "go_Fields f \<longleftrightarrow>
     go_int (Year f) \<and> go_int (Month f) \<and> go_int (Day f) \<and> go_int (Hour f) \<and>
     go_int (Minute f) \<and> go_int (Second f) \<and> go_int (Nsec f)"

definition go_Time :: "Time \<Rightarrow> bool" where
  "go_Time t \<longleftrightarrow> go_Fields (loc t) \<and> go_Fields (utc t)"

text \<open>The time and every line number that the run-time system reports are Go integers.\<close>

definition go_Runtime :: "Runtime \<Rightarrow> bool" where
  "go_Runtime R \<longleftrightarrow> go_Time (Now R) \<and> (\<forall>d. go_int (fst (snd (Caller R d))))"

text \<open>A reading of the clock as the \<open>time\<close> package gives it: no component is negative.\<close>

definition clock_Fields :: "Fields \<Rightarrow> bool" where
  "clock_Fields f \<longleftrightarrow>
     go_Fields f \<and> 0 \<le> Year f \<and> 0 \<le> Month f \<and> 0 \<le> Day f \<and> 0 \<le> Hour f \<and>
     0 \<le> Minute f \<and> 0 \<le> Second f \<and> 0 \<le> Nsec f"

text \<open>The clock at 2009-01-23 01:23:23 and \<open>n\<close> nanoseconds.\<close>

definition clock_2009 :: "int \<Rightarrow> Fields" where
  "clock_2009 n =
     \<lparr>Year = 2009, Month = 1, Day = 23, Hour = 1, Minute = 23, Second = 23, Nsec = n\<rparr>"

text \<open>Decimal digits of a number, padded with zeros on the left up to a width.\<close>

definition zpad :: "nat \<Rightarrow> int \<Rightarrow> string" where
  "zpad w i = replicate (w - length (decimal (nat i))) CHR ''0'' @ decimal (nat i)"

text \<open>The header of a line, whether \<open>formatHeader\<close> completed or not.\<close>

definition header :: "Runtime \<Rightarrow> LevelDecl \<Rightarrow> Logger \<Rightarrow> int \<Rightarrow> Level \<Rightarrow> string" where
  "header R P l calldepth lv =
     (case callerInfo R l calldepth of (file, line) \<Rightarrow>
        (case formatHeader P l [] (Now R) file line lv of Inl b \<Rightarrow> b | Inr b \<Rightarrow> b))"

text \<open>The message body without the one newline that \<open>Output\<close> strips.\<close>

definition body :: "string \<Rightarrow> string" where
  "body s = (if s \<noteq> [] \<and> last s = CHR 0x0A then butlast s else s)"

text \<open>
  The line before its final newline: header, content prefix, body and, when a suffix is
  configured, the spaces up to column 66 and the suffix.
\<close>

definition assembled :: "Runtime \<Rightarrow> LevelDecl \<Rightarrow> Logger \<Rightarrow> int \<Rightarrow> string \<Rightarrow> Level \<Rightarrow> string" where
  "assembled R P l calldepth s lv =
     header R P l calldepth lv @ contentPrefix l @ body s @
       (if suffix l = [] then []
        else replicate (66 - length (body s)) CHR '' '' @ suffix l)"

definition line_text :: "Runtime \<Rightarrow> LevelDecl \<Rightarrow> Logger \<Rightarrow> int \<Rightarrow> string \<Rightarrow> Level \<Rightarrow> string" where
  "line_text R P l calldepth s lv =
     (let a = assembled R P l calldepth s lv
      in if a = [] \<or> last a \<noteq> CHR 0x0A then a @ [CHR 0x0A] else a)"

text \<open>How many newlines a text ends in.\<close>

definition trailing_newlines :: "string \<Rightarrow> nat" where
  "trailing_newlines xs = length (takeWhile (\<lambda>c. c = CHR 0x0A) (rev xs))"

text \<open>The last write that a writer has seen.\<close>

definition last_write :: "Logger \<Rightarrow> string" where
  "last_write l = last (written (out l))"

text \<open>The fifteen gated methods, by level and by variant.\<close>

datatype gated = GError | GWarn | GInfo | GDebug | GVerbose

datatype variant = Plain | Formatted | Line

fun rank :: "gated \<Rightarrow> Level" where
  "rank GError = ErrorLevel"
| "rank GWarn = WarnLevel"
| "rank GInfo = InfoLevel"
| "rank GDebug = DebugLevel"
| "rank GVerbose = VerboseLevel"

fun emit ::
  "gated \<Rightarrow> variant \<Rightarrow> 'a Fmt \<Rightarrow> Runtime \<Rightarrow> LevelDecl \<Rightarrow> State \<Rightarrow> string \<Rightarrow> 'a list
     \<Rightarrow> State \<times> unit outcome" where
  "emit GError Plain F R P st format v = Error F R P st format v"
| "emit GError Formatted F R P st format v = Errorf F R P st format v"
| "emit GError Line F R P st format v = Errorln F R P st v"
| "emit GWarn Plain F R P st format v = Warn F R P st format v"
| "emit GWarn Formatted F R P st format v = Warnf F R P st format v"
| "emit GWarn Line F R P st format v = Warnln F R P st v"
| "emit GInfo Plain F R P st format v = Info F R P st format v"
| "emit GInfo Formatted F R P st format v = Infof F R P st format v"
| "emit GInfo Line F R P st format v = Infoln F R P st v"
| "emit GDebug Plain F R P st format v = Debug F R P st format v"
| "emit GDebug Formatted F R P st format v = Debugf F R P st format v"
| "emit GDebug Line F R P st format v = Debugln F R P st v"
| "emit GVerbose Plain F R P st format v = Verbose F R P st format v"
| "emit GVerbose Formatted F R P st format v = Verbosef F R P st format v"
| "emit GVerbose Line F R P st format v = Verboseln F R P st v"

text \<open>The message that a variant formats: \<open>Sprintf\<close>, or \<open>Sprintln\<close> for the line variant.\<close>

fun message :: "variant \<Rightarrow> 'a Fmt \<Rightarrow> string \<Rightarrow> 'a list \<Rightarrow> string" where
  "message Plain F format v = Sprintf F format v"
| "message Formatted F format v = Sprintf F format v"
| "message Line F format v = Sprintln F v"

text \<open>
  The state after a method has formatted the message \<open>s\<close> and handed it to \<open>Output\<close>
  at the level \<open>lv\<close>.
\<close>

definition logged :: "Runtime \<Rightarrow> LevelDecl \<Rightarrow> State \<Rightarrow> string \<Rightarrow> Level \<Rightarrow> State" where
  "logged R P st s lv =
     \<lparr>logger = fst (Output R P (logger st) (callDepth (logger st)) s lv),
      formatted = formatted st + 1\<rparr>"

text \<open>The contract of \<open>hash.Hash\<close> for MD5: \<open>Write\<close> never fails, \<open>Sum\<close> appends 16 bytes.\<close>

definition md5_contract :: "'h Hasher \<Rightarrow> bool" where
  "md5_contract H \<longleftrightarrow>
     (\<forall>h p. snd (snd (hasher_Write H h p)) = None) \<and>
     (\<forall>h b. length (hasher_Sum H h b) = length b + 16)"

section \<open>The MD5 hasher\<close>

text \<open>
  An instance of the hasher parameter: MD5 as RFC 1321 defines it, over 32-bit words held
  as integers below \<open>2 ^ 32\<close>. \<open>Write\<close> adds to the data seen so far and never
  fails; \<open>Sum\<close> appends the digest of that data.
\<close>

definition md5_shifts :: "nat list" where
  "md5_shifts =
     [7, 12, 17, 22, 7, 12, 17, 22, 7, 12, 17, 22, 7, 12, 17, 22,
      5, 9, 14, 20, 5, 9, 14, 20, 5, 9, 14, 20, 5, 9, 14, 20,
      4, 11, 16, 23, 4, 11, 16, 23, 4, 11, 16, 23, 4, 11, 16, 23,
      6, 10, 15, 21, 6, 10, 15, 21, 6, 10, 15, 21, 6, 10, 15, 21]"

definition md5_table :: "int list" where
  "md5_table =
     [0xd76aa478, 0xe8c7b756, 0x242070db, 0xc1bdceee,
      0xf57c0faf, 0x4787c62a, 0xa8304613, 0xfd469501,
      0x698098d8, 0x8b44f7af, 0xffff5bb1, 0x895cd7be,
      0x6b901122, 0xfd987193, 0xa679438e, 0x49b40821,
      0xf61e2562, 0xc040b340, 0x265e5a51, 0xe9b6c7aa,
      0xd62f105d, 0x02441453, 0xd8a1e681, 0xe7d3fbc8,
      0x21e1cde6, 0xc33707d6, 0xf4d50d87, 0x455a14ed,
      0xa9e3e905, 0xfcefa3f8, 0x676f02d9, 0x8d2a4c8a,
      0xfffa3942, 0x8771f681, 0x6d9d6122, 0xfde5380c,
      0xa4beea44, 0x4bdecfa9, 0xf6bb4b60, 0xbebfbc70,
      0x289b7ec6, 0xeaa127fa, 0xd4ef3085, 0x04881d05,
      0xd9d4d039, 0xe6db99e5, 0x1fa27cf8, 0xc4ac5665,
      0xf4292244, 0x432aff97, 0xab9423a7, 0xfc93a039,
      0x655b59c3, 0x8f0ccc92, 0xffeff47d, 0x85845dd1,
      0x6fa87e4f, 0xfe2ce6e0, 0xa3014314, 0x4e0811a1,
      0xf7537e82, 0xbd3af235, 0x2ad7d2bb, 0xeb86d391]"

definition u32 :: "int \<Rightarrow> int" where
  "u32 x = x mod 2 ^ 32"

definition rotl :: "int \<Rightarrow> nat \<Rightarrow> int" where
  "rotl x c = u32 (x * 2 ^ c) OR (x div 2 ^ (32 - c))"

fun le_word :: "string \<Rightarrow> int" where
  "le_word (a # b # c # d # _) =
     of_char a + 2 ^ 8 * of_char b + 2 ^ 16 * of_char c + 2 ^ 24 * of_char d"
| "le_word _ = 0"

definition le_bytes :: "nat \<Rightarrow> int \<Rightarrow> string" where
  "le_bytes n x = map (\<lambda>k. char_of (x div 2 ^ (8 * k))) [0..<n]"

definition md5_pad :: "string \<Rightarrow> string" where
  "md5_pad m =
     m @ CHR 0x80 # replicate ((119 - length m mod 64) mod 64) (CHR 0x00)
       @ le_bytes 8 (8 * int (length m))"

definition md5_round :: "int list \<Rightarrow> int \<times> int \<times> int \<times> int \<Rightarrow> nat \<Rightarrow> int \<times> int \<times> int \<times> int" where
  "md5_round M st i =
     (case st of (A, B, C, D) \<Rightarrow>
        let (F, g) =
              (if i < 16 then ((B AND C) OR (u32 (NOT B) AND D), i)
               else if i < 32 then ((D AND B) OR (u32 (NOT D) AND C), (5 * i + 1) mod 16)
               else if i < 48 then (B XOR C XOR D, (3 * i + 5) mod 16)
               else (C XOR (B OR u32 (NOT D)), (7 * i) mod 16));
            F' = u32 (F + A + md5_table ! i + M ! g)
        in (D, u32 (B + rotl F' (md5_shifts ! i)), B, C))"

definition md5_block :: "int \<times> int \<times> int \<times> int \<Rightarrow> string \<Rightarrow> int \<times> int \<times> int \<times> int" where
  "md5_block h blk =
     (let M = map (\<lambda>k. le_word (drop (4 * k) blk)) [0..<16]
      in case (h, foldl (md5_round M) h [0..<64]) of
           ((a0, b0, c0, d0), (A, B, C, D)) \<Rightarrow>
             (u32 (a0 + A), u32 (b0 + B), u32 (c0 + C), u32 (d0 + D)))"

fun md5_blocks :: "nat \<Rightarrow> int \<times> int \<times> int \<times> int \<Rightarrow> string \<Rightarrow> int \<times> int \<times> int \<times> int" where
  "md5_blocks 0 h m = h"
| "md5_blocks (Suc n) h m = md5_blocks n (md5_block h (take 64 m)) (drop 64 m)"

definition md5_sum :: "string \<Rightarrow> string" where
  "md5_sum m =
     (let p = md5_pad m
      in case md5_blocks (length p div 64) (0x67452301, 0xefcdab89, 0x98badcfe, 0x10325476) p of
           (a, b, c, d) \<Rightarrow> le_bytes 4 a @ le_bytes 4 b @ le_bytes 4 c @ le_bytes 4 d)"

definition md5_hasher :: "string Hasher" where
  "md5_hasher =
     \<lparr>md5_New = [],
      hasher_Write = (\<lambda>h p. (h @ p, int (length p), None)),
      hasher_Sum = (\<lambda>h b. b @ md5_sum h)\<rparr>"

section \<open>Example inputs\<close>

definition ex_decl :: LevelDecl where
  "ex_decl = \<lparr>LLevel = 64, String = (\<lambda>lv. ''LVL''), Color = (\<lambda>lv. 31)\<rparr>"

definition ex_writer :: Writer where
  "ex_writer = \<lparr>written = [], respond = (\<lambda>h p. None)\<rparr>"

definition ex_failing_writer :: Writer where
  "ex_failing_writer = \<lparr>written = [], respond = (\<lambda>h p. Some (Err ''disk full''))\<rparr>"

definition ex_fields :: Fields where
  "ex_fields = clock_2009 123123456"

definition ex_time :: Time where
  "ex_time = \<lparr>loc = ex_fields, utc = ex_fields\<rparr>"

definition ex_runtime :: Runtime where
  "ex_runtime = \<lparr>Now = ex_time, Caller = (\<lambda>d. (''/a/b/c/d.go'', 23, True))\<rparr>"

definition ex_lost_runtime :: Runtime where
  "ex_lost_runtime = \<lparr>Now = ex_time, Caller = (\<lambda>d. ([], 0, False))\<rparr>"

definition ex_fmt :: "string Fmt" where
  "ex_fmt = \<lparr>Sprintf = (\<lambda>format v. format @ concat v), Sprint = concat,
             Sprintln = (\<lambda>v. concat v @ [CHR 0x0A])\<rparr>"

definition ex_logger :: "int \<Rightarrow> string \<Rightarrow> Logger" where
  "ex_logger flag' suffix' = New ex_writer [] suffix' flag' WarnLevel NotTerminal"

definition ex_state :: "Level \<Rightarrow> State" where
  "ex_state level' = \<lparr>logger = SetLevel (ex_logger LstdFlags []) level', formatted = 0\<rparr>"

section \<open>Lemmas about the header and about Output\<close>

declare itoa_loop.simps [simp del] decimal.simps [simp del]

lemma go_div_nonneg: "0 \<le> a \<Longrightarrow> 0 < b \<Longrightarrow> go_div a b = a div b"
  by (simp add: go_div_def)

lemma go_div_abs: "\<bar>go_div a b\<bar> = \<bar>a\<bar> div \<bar>b\<bar>"
  by (simp add: go_div_def pos_imp_zdiv_nonneg_iff div_int_pos_iff)

lemma itoa_loop_Some:
  "\<bar>i\<bar> < 10 ^ (20 - length b) \<Longrightarrow> wid \<le> 20 - int (length b) \<Longrightarrow> length b < 20
     \<Longrightarrow> \<exists>r. itoa_loop i wid b = Some r"
proof (induction i wid b rule: itoa_loop.induct)
  case (1 i wid b)
  show ?case
  proof (cases "i \<ge> 10 \<or> wid > 1")
    case False
    with "1.prems" show ?thesis by (simp add: itoa_loop.simps [of i wid b])
  next
    case True
    have len: "length b < 19"
    proof (rule ccontr)
      assume "\<not> length b < 19"
      with "1.prems" have "length b = 19" by simp
      with "1.prems" True show False by simp
    qed
    define q where "q = go_div i 10"
    define c where "c = char_of (48 + i - q * 10)"
    have pw: "(10::int) ^ (20 - length b) = 10 * 10 ^ (20 - length (c # b))"
      using len by (simp add: Suc_diff_Suc flip: power_Suc)
    have "\<bar>q\<bar> < 10 ^ (20 - length (c # b))"
      using "1.prems"(1) unfolding q_def go_div_abs pw by simp
    moreover have "wid - 1 \<le> 20 - int (length (c # b))" using "1.prems"(2) by simp
    moreover have "length (c # b) < 20" using len by simp
    ultimately have "\<exists>r. itoa_loop q (wid - 1) (c # b) = Some r"
      using "1.IH" [OF True _ refl] len
      unfolding c_def q_def by simp
    then show ?thesis
      using True len by (simp add: itoa_loop.simps [of i wid b] q_def c_def Let_def)
  qed
qed

lemma decimal_small: "n < 10 \<Longrightarrow> decimal n = [char_of (48 + n)]"
  by (simp add: decimal.simps [of n])

lemma decimal_large: "10 \<le> n \<Longrightarrow> decimal n = decimal (n div 10) @ [char_of (48 + n mod 10)]"
  by (simp add: decimal.simps [of n])

lemma decimal_zero: "decimal 0 = ''0''"
  by code_simp

lemma char_of_digit_int: "0 \<le> i \<Longrightarrow> char_of (48 + i - i div 10 * 10) = char_of (48 + nat i mod 10)"
proof -
  assume i: "0 \<le> i"
  have "48 + i - i div 10 * 10 = 48 + i mod 10" by (simp add: minus_div_mult_eq_mod algebra_simps)
  also have "\<dots> = int (48 + nat i mod 10)" using i by (simp add: nat_mod_distrib zmod_int)
  finally show ?thesis by (simp only: char_of_nat)
qed

lemma itoa_loop_decimal:
  "0 \<le> i \<Longrightarrow> i < 10 ^ (20 - length b) \<Longrightarrow> wid \<le> 20 - int (length b) \<Longrightarrow> length b < 20
     \<Longrightarrow> itoa_loop i wid b = Some (zpad (nat wid) i @ b)"
proof (induction i wid b rule: itoa_loop.induct)
  case (1 i wid b)
  show ?case
  proof (cases "i \<ge> 10 \<or> wid > 1")
    case False
    then have "nat i < 10" and "nat wid - 1 = 0" by auto
    moreover have "char_of (48 + i) = char_of (48 + nat i)"
      using "1.prems"(1) char_of_nat [of "48 + nat i", where ?'a = int] by simp
    ultimately show ?thesis
      using False "1.prems" by (simp add: itoa_loop.simps [of i wid b] zpad_def decimal_small)
  next
    case True
    have len: "length b < 19"
    proof (rule ccontr)
      assume "\<not> length b < 19"
      with "1.prems" have "length b = 19" by simp
      with "1.prems" True show False by simp
    qed
    define q where "q = go_div i 10"
    define c where "c = char_of (48 + i - q * 10)"
    have q: "q = i div 10" using "1.prems"(1) by (simp add: q_def go_div_nonneg)
    have c: "c = char_of (48 + nat i mod 10)"
      using "1.prems"(1) by (simp only: c_def q char_of_digit_int)
    have pw: "(10::int) ^ (20 - length b) = 10 * 10 ^ (20 - length (c # b))"
      using len by (simp add: Suc_diff_Suc flip: power_Suc)
    have "q < 10 ^ (20 - length (c # b))"
      using "1.prems"(1,2) unfolding q pw by simp
    moreover have "0 \<le> q" using "1.prems"(1) by (simp add: q)
    moreover have "wid - 1 \<le> 20 - int (length (c # b))" using "1.prems"(3) by simp
    moreover have "length (c # b) < 20" using len by simp
    ultimately have IH: "itoa_loop q (wid - 1) (c # b) = Some (zpad (nat (wid - 1)) q @ c # b)"
      using "1.IH" [OF True _ refl] len
      unfolding c_def q_def by simp
    have step: "itoa_loop i wid b = itoa_loop q (wid - 1) (c # b)"
      using True len by (simp add: itoa_loop.simps [of i wid b] q_def c_def Let_def)
    have "zpad (nat wid) i = zpad (nat (wid - 1)) q @ [c]"
    proof (cases "10 \<le> i")
      case True
      then have "decimal (nat i) = decimal (nat q) @ [c]"
        by (simp add: decimal_large [of "nat i"] c q nat_div_distrib)
      moreover have "nat wid - Suc (length (decimal (nat q))) = nat (wid - 1) - length (decimal (nat q))"
        by simp
      ultimately show ?thesis by (simp add: zpad_def)
    next
      case False
      with True have w: "1 < wid" by simp
      from False "1.prems"(1) have q0: "q = 0" by (simp add: q)
      from False have "nat i < 10" by simp
      then have d: "decimal (nat i) = [c]" by (simp add: decimal_small c)
      have "replicate (nat wid - 1) CHR ''0'' = replicate (nat (wid - 1) - 1) CHR ''0'' @ ''0''"
      proof -
        from w have "nat wid - 1 = Suc (nat (wid - 1) - 1)" by simp
        then show ?thesis by (simp only: replicate_Suc replicate_app_Cons_same) simp
      qed
      then show ?thesis by (simp add: zpad_def d q0 decimal_zero)
    qed
    with IH step show ?thesis by simp
  qed
qed

lemma go_int_pow20: "go_int i \<Longrightarrow> \<bar>i\<bar> < 10 ^ 20"
  by (auto simp: go_int_def abs_less_iff)

lemma itoa_Inr: "go_int i \<Longrightarrow> wid \<le> 20 \<Longrightarrow> itoa bufp i wid = Inr (bufp @ the (itoa_loop i wid []))"
  using itoa_loop_Some [of i "[]" wid] go_int_pow20 [of i] by (auto simp: itoa_def)

lemma itoa_decimal:
  "0 \<le> i \<Longrightarrow> go_int i \<Longrightarrow> wid \<le> 20 \<Longrightarrow> itoa bufp i wid = Inr (bufp @ zpad (nat wid) i)"
  using itoa_loop_decimal [of i "[]" wid] go_int_pow20 [of i] by (simp add: itoa_def)

lemma andThen_Inr [simp]: "andThen (Inr b) f = f b"
  by (simp add: andThen_def)

lemma andThen_Inl [simp]: "andThen (Inl b) f = Inl b"
  by (simp add: andThen_def)

lemma go_int_go_div: "go_int a \<Longrightarrow> go_int (go_div a 1000)"
  unfolding go_int_def go_div_def by (simp split: if_splits) arith

lemma go_Time_UTC: "go_Time t \<Longrightarrow> go_Time (UTC t)"
  by (simp add: go_Time_def UTC_def)

lemma dateTime_Inr: "go_Time t \<Longrightarrow> \<exists>d. dateTime l b t = Inr (b @ d)"
proof -
  assume t: "go_Time t"
  define t' where "t' = (if flag l AND LUTC \<noteq> 0 then UTC t else t)"
  from t have "go_Time t'" by (simp add: t'_def go_Time_UTC)
  then have f: "go_Fields (loc t')" by (simp add: go_Time_def)
  then have g: "go_int (go_div (Nsec (loc t')) 1000)" by (simp add: go_Fields_def go_int_go_div)
  show ?thesis
    unfolding dateTime_def Let_def t'_def [symmetric] Date_def Clock_def Nanosecond_def
    using f g by (simp add: itoa_Inr go_Fields_def)
qed

lemma fileLine_Inr: "go_int line \<Longrightarrow> \<exists>d. fileLine l b file line = Inr (b @ d)"
  by (simp add: fileLine_def Let_def itoa_Inr)

lemma formatHeader_Inr:
  "go_Time t \<Longrightarrow> go_int line \<Longrightarrow> \<exists>h. formatHeader P l bufp t file line lv = Inr h"
proof -
  assume t: "go_Time t" and n: "go_int line"
  obtain d where d: "dateTime l (levelTag P l (bufp @ prefix l) lv) t
      = Inr (levelTag P l (bufp @ prefix l) lv @ d)"
    using dateTime_Inr [OF t] by blast
  obtain e where "fileLine l (levelTag P l (bufp @ prefix l) lv @ d) file line
      = Inr ((levelTag P l (bufp @ prefix l) lv @ d) @ e)"
    using fileLine_Inr [OF n] by blast
  then show ?thesis by (simp add: formatHeader_def d)
qed

lemma go_int_callerInfo: "go_Runtime R \<Longrightarrow> go_int (snd (callerInfo R l calldepth))"
proof -
  assume "go_Runtime R"
  then have "go_int (fst (snd (Caller R calldepth)))" by (simp add: go_Runtime_def)
  then show ?thesis
    by (cases "Caller R calldepth") (auto simp: callerInfo_def go_int_def)
qed

lemma formatHeader_header:
  assumes "go_Runtime R"
  shows "formatHeader P l [] (Now R) (fst (callerInfo R l calldepth))
           (snd (callerInfo R l calldepth)) lv = Inr (header R P l calldepth lv)"
proof -
  from assms have "go_Time (Now R)" by (simp add: go_Runtime_def)
  from formatHeader_Inr [OF this go_int_callerInfo [OF assms]]
  obtain h where "formatHeader P l [] (Now R) (fst (callerInfo R l calldepth))
           (snd (callerInfo R l calldepth)) lv = Inr h" by blast
  then show ?thesis by (simp add: header_def split_beta)
qed

lemma Output_completes:
  assumes "formatHeader P l [] (Now R) (fst (callerInfo R l calldepth))
             (snd (callerInfo R l calldepth)) lv = Inr h"
  shows "Output R P l calldepth s lv =
           (l\<lparr>buf := line_text R P l calldepth s lv,
              out := (out l)\<lparr>written := written (out l) @ [line_text R P l calldepth s lv]\<rparr>\<rparr>,
            Returns (respond (out l) (written (out l)) (line_text R P l calldepth s lv)))"
proof -
  have len1: "int (length s - Suc 0) = int (length s) - 1" if "s \<noteq> []"
    using that by (cases s) simp_all
  have strip: "(if 0 < length s \<and> s ! (length s - 1) = CHR 0x0A
          then (b @ take (length s - 1) s, int (length s) - 1) else (b @ s, int (length s)))
        = (b @ body s, int (length (body s)))" for b
    by (cases "s = []") (auto simp: body_def last_conv_nth butlast_conv_take len1)
  have pad: "(if int n < MaxContextLen then b @ replicate (nat (MaxContextLen - int n)) CHR '' '' else b)
        = b @ replicate (66 - n) CHR '' ''" for n and b :: string
    by (auto simp: MaxContextLen_def nat_diff_distrib)
  have nl: "(if length a = 0 \<or> a ! (length a - 1) \<noteq> CHR 0x0A then a @ [CHR 0x0A] else a)
        = (if a = [] \<or> last a \<noteq> CHR 0x0A then a @ [CHR 0x0A] else a)" for a :: string
    by (cases "a = []") (auto simp: last_conv_nth)
  have cp: "(if 0 < length (contentPrefix l) then h @ contentPrefix l else h)
        = h @ contentPrefix l" for h
    by simp
  have suf: "(if 0 < length (suffix l) then (b @ replicate (66 - n) CHR '' '') @ suffix l else b)
        = b @ (if suffix l = [] then [] else replicate (66 - n) CHR '' '' @ suffix l)" for b n
    by simp
  have hd: "formatHeader P l [] (Now R) (fst (callerInfo R l calldepth))
             (snd (callerInfo R l calldepth)) lv = Inr (header R P l calldepth lv)"
    using assms by (simp add: header_def split_beta)
  show ?thesis
    unfolding Output_def Let_def split_beta hd sum.case cp strip fst_conv snd_conv pad suf nl
    by (simp add: line_text_def assembled_def Write_def Let_def split del: if_split cong: if_cong)
qed

lemma Output_Returns:
  assumes "go_Runtime R"
  shows "Output R P l calldepth s lv =
           (l\<lparr>buf := line_text R P l calldepth s lv,
              out := (out l)\<lparr>written := written (out l) @ [line_text R P l calldepth s lv]\<rparr>\<rparr>,
            Returns (respond (out l) (written (out l)) (line_text R P l calldepth s lv)))"
  by (rule Output_completes [OF formatHeader_header [OF assms]])

lemma go_Runtime_ex: "go_Runtime ex_runtime"
  by (simp add: go_Runtime_def ex_runtime_def go_Time_def ex_time_def go_Fields_def
      ex_fields_def clock_2009_def go_int_def)

lemma last_write_Output:
  "go_Runtime R \<Longrightarrow> last_write (fst (Output R P l calldepth s lv)) = line_text R P l calldepth s lv"
  by (simp add: Output_Returns last_write_def)

lemma trailing_newlines_snoc:
  "trailing_newlines (a @ [c]) = (if c = CHR 0x0A then Suc (trailing_newlines a) else 0)"
  by (simp add: trailing_newlines_def)

lemma trailing_newlines_none:
  "a = [] \<or> last a \<noteq> CHR 0x0A \<Longrightarrow> trailing_newlines a = 0"
  by (cases a rule: rev_cases) (simp_all add: trailing_newlines_def)

lemma trailing_newlines_some:
  "a \<noteq> [] \<Longrightarrow> last a = CHR 0x0A \<Longrightarrow> 1 \<le> trailing_newlines a"
  by (cases a rule: rev_cases) (simp_all add: trailing_newlines_def)

lemma body_cases:
  "(s \<noteq> [] \<and> last s = CHR 0x0A \<longrightarrow> s = body s @ [CHR 0x0A]) \<and>
   (s = [] \<or> last s \<noteq> CHR 0x0A \<longrightarrow> body s = s)"
  by (cases s rule: rev_cases) (auto simp: body_def)

lemma itoa_zero: "itoa bufp 0 (- 1) = Inr (bufp @ ''0'')"
  by (simp add: itoa_def itoa_loop.simps [of 0 "- 1" "[]"] char_of_def)

lemma fileLine_lost:
  "flag l AND (Lshortfile OR Llongfile) \<noteq> 0 \<Longrightarrow> fileLine l b ''???'' 0 = Inr (b @ ''???:0: '')"
  by (simp add: fileLine_def Let_def itoa_zero numeral_3_eq_3)

lemma go_Runtime_ex_lost: "go_Runtime ex_lost_runtime"
  by (simp add: go_Runtime_def ex_lost_runtime_def go_Time_def ex_time_def go_Fields_def
      ex_fields_def clock_2009_def go_int_def)

section \<open>Date and time in the header\<close>

lemma length_decimal_le: "n < 10 ^ w \<Longrightarrow> 0 < w \<Longrightarrow> length (decimal n) \<le> w"
proof (induction n arbitrary: w rule: decimal.induct)
  case (1 n)
  show ?case
  proof (cases "n < 10")
    case True
    with "1.prems" show ?thesis by (simp add: decimal_small)
  next
    case False
    from "1.prems" obtain w' where w: "w = Suc w'" by (cases w) auto
    from False "1.prems" w have "0 < w'" by (cases w') auto
    moreover from "1.prems" w have "n div 10 < 10 ^ w'" by (simp add: less_mult_imp_div_less)
    ultimately have "length (decimal (n div 10)) \<le> w'" using "1.IH" [OF False] by blast
    with False w show ?thesis by (simp add: decimal_large)
  qed
qed

lemma length_zpad: "0 \<le> i \<Longrightarrow> i < 10 ^ w \<Longrightarrow> 0 < w \<Longrightarrow> length (zpad w i) = w"
proof -
  assume i: "0 \<le> i" "i < 10 ^ w" and w: "0 < w"
  from i have "nat i < 10 ^ w" by (simp add: nat_less_iff)
  from length_decimal_le [OF this w] show ?thesis by (simp add: zpad_def)
qed

lemma zpad_by_itoa:
  "0 \<le> i \<Longrightarrow> go_int i \<Longrightarrow> wid \<le> 20 \<Longrightarrow> itoa [] i wid = Inr ds \<Longrightarrow> zpad (nat wid) i = ds"
  by (simp add: itoa_decimal)

lemma itoa_2009:
  "itoa [] 2009 4 = Inr ''2009''" "itoa [] 1 2 = Inr ''01''" "itoa [] 23 2 = Inr ''23''"
  "itoa [] 123123 6 = Inr ''123123''"
  by code_simp+

lemma zpad_2009:
  "zpad 4 2009 = ''2009''" "zpad 2 1 = ''01''" "zpad 2 23 = ''23''" "zpad 6 123123 = ''123123''"
  using zpad_by_itoa [OF _ _ _ itoa_2009(1)] zpad_by_itoa [OF _ _ _ itoa_2009(2)]
    zpad_by_itoa [OF _ _ _ itoa_2009(3)] zpad_by_itoa [OF _ _ _ itoa_2009(4)]
  by (simp_all add: go_int_def)

lemma dateTime_full:
  assumes f: "flag l = Ldate OR Ltime OR Lmicroseconds" and c: "clock_Fields (loc t)"
  shows "dateTime l b t =
           Inr (b @ zpad 4 (Year (loc t)) @ ''/'' @ zpad 2 (Month (loc t)) @ ''/''
                  @ zpad 2 (Day (loc t)) @ '' '' @ zpad 2 (Hour (loc t)) @ '':''
                  @ zpad 2 (Minute (loc t)) @ '':'' @ zpad 2 (Second (loc t)) @ ''.''
                  @ zpad 6 (Nsec (loc t) div 1000) @ '' '')"
proof -
  have fl: "flag l = 7" using f by (simp add: Ldate_def Ltime_def Lmicroseconds_def)
  from c have n: "0 \<le> Nsec (loc t)" "go_int (Nsec (loc t))"
    by (simp_all add: clock_Fields_def go_Fields_def)
  have g: "go_int (go_div (Nsec (loc t)) 1000)"
    "go_div (Nsec (loc t)) 1000 = Nsec (loc t) div 1000" "0 \<le> Nsec (loc t) div 1000"
    using n go_int_go_div [OF n(2)] by (simp_all add: go_div_nonneg pos_imp_zdiv_nonneg_iff)
  show ?thesis
    using c g
    by (simp add: dateTime_def fl Ldate_def Ltime_def Lmicroseconds_def LUTC_def Date_def
        Clock_def Nanosecond_def clock_Fields_def go_Fields_def itoa_decimal)
qed

lemma dateTime_std:
  assumes f: "flag l = Ldate OR Ltime" and c: "clock_Fields (loc t)"
  shows "dateTime l b t =
           Inr (b @ zpad 4 (Year (loc t)) @ ''/'' @ zpad 2 (Month (loc t)) @ ''/''
                  @ zpad 2 (Day (loc t)) @ '' '' @ zpad 2 (Hour (loc t)) @ '':''
                  @ zpad 2 (Minute (loc t)) @ '':'' @ zpad 2 (Second (loc t)) @ '' '')"
proof -
  have fl: "flag l = 3" using f by (simp add: Ldate_def Ltime_def)
  show ?thesis
    using c
    by (simp add: dateTime_def fl Ldate_def Ltime_def Lmicroseconds_def LUTC_def Date_def
        Clock_def clock_Fields_def go_Fields_def itoa_decimal)
qed

lemma clock_Fields_2009: "0 \<le> n \<Longrightarrow> n < 10 ^ 9 \<Longrightarrow> clock_Fields (clock_2009 n)"
  by (simp add: clock_Fields_def go_Fields_def clock_2009_def go_int_def)

lemma formatHeader_cong:
  "prefix l = prefix l' \<Longrightarrow> flag l = flag l' \<Longrightarrow> isTerminal l = isTerminal l' \<Longrightarrow>
     formatHeader P l bufp t file line lv = formatHeader P l' bufp t file line lv"
  by (simp add: formatHeader_def levelTag_def dateTime_def fileLine_def)

lemma dateTime_2009:
  assumes "flag l = Ldate OR Ltime OR Lmicroseconds" and "loc t = clock_2009 n"
    and "123123000 \<le> n" and "n < 123124000"
  shows "dateTime l b t = Inr (b @ ''2009/01/23 01:23:23.123123 '')"
proof -
  from assms(3,4) have d: "n div 1000 = 123123" by arith
  from assms(3,4) have "clock_Fields (loc t)"
    by (simp add: assms(2) clock_Fields_2009)
  from dateTime_full [OF assms(1) this] show ?thesis
    by (simp add: assms(2) clock_2009_def d zpad_2009)
qed

lemma Output_std_2009:
  assumes f: "flag l = Ldate OR Ltime" and lv: "flag l AND LLevel P = 0"
    and e: "prefix l = []" "contentPrefix l = []" "suffix l = []"
    and t: "loc (Now R) = clock_2009 n" and n: "0 \<le> n" "n < 10 ^ 9"
  shows "last_write (fst (Output R P l calldepth ''message'' lv'))
           = ''2009/01/23 01:23:23 message'' @ [CHR 0x0A]"
proof -
  have fl: "flag l = 3" using f by (simp add: Ldate_def Ltime_def)
  have ci: "callerInfo R l calldepth = ([], 0)"
    by (simp add: callerInfo_def fl Lshortfile_def Llongfile_def)
  have c: "clock_Fields (loc (Now R))" using n by (simp add: t clock_Fields_2009)
  have lt: "levelTag P l [] lv' = []" using lv by (simp add: levelTag_def)
  have h: "formatHeader P l [] (Now R) (fst (callerInfo R l calldepth))
             (snd (callerInfo R l calldepth)) lv' = Inr ''2009/01/23 01:23:23 ''"
    by (simp add: formatHeader_def e lt dateTime_std [OF f c] t clock_2009_def zpad_2009
        fileLine_def fl Lshortfile_def Llongfile_def)
  then have hd: "header R P l calldepth lv' = ''2009/01/23 01:23:23 ''"
    by (simp add: header_def split_beta)
  show ?thesis
    by (simp add: Output_completes [OF h] last_write_def line_text_def assembled_def hd e
        body_def)
qed

text \<open>
  Claim C3. The header is a function of the flags, the time, the file, the line, the
  level, the terminal mode and the prefix: two Loggers that agree on prefix, flags and
  terminal mode render the same header. With the flags date and time only (and no prefix,
  content prefix or suffix), at 2009-01-23 01:23:23 the body \<open>message\<close> is written as
  \<open>2009/01/23 01:23:23 message\<close> and a newline. With the flags date, time and
  microseconds and 123123 microseconds, the date and time are rendered as
  \<open>2009/01/23 01:23:23.123123 \<close>. In general the year is padded with zeros to 4
  digits, month, day, hour, minute and second to 2, the microseconds to 6, and a number
  below \<open>10 ^ w\<close> padded to \<open>w\<close> has exactly \<open>w\<close> digits.
\<close>

theorem header_rendering:
  "(prefix l = prefix l' \<and> flag l = flag l' \<and> isTerminal l = isTerminal l' \<longrightarrow>
      formatHeader P l bufp t file line lv = formatHeader P l' bufp t file line lv) \<and>
   (flag l = Ldate OR Ltime \<and> flag l AND LLevel P = 0 \<and> prefix l = [] \<and>
    contentPrefix l = [] \<and> suffix l = [] \<and> loc (Now R) = clock_2009 n \<and> 0 \<le> n \<and> n < 10 ^ 9 \<longrightarrow>
      last_write (fst (Output R P l calldepth ''message'' lv))
        = ''2009/01/23 01:23:23 message'' @ [CHR 0x0A]) \<and>
   (flag l = Ldate OR Ltime OR Lmicroseconds \<and> loc t = clock_2009 m \<and>
    123123000 \<le> m \<and> m < 123124000 \<longrightarrow>
      dateTime l b t = Inr (b @ ''2009/01/23 01:23:23.123123 '')) \<and>
   (flag l = Ldate OR Ltime OR Lmicroseconds \<and> clock_Fields (loc t) \<longrightarrow>
      dateTime l b t =
        Inr (b @ zpad 4 (Year (loc t)) @ ''/'' @ zpad 2 (Month (loc t)) @ ''/''
               @ zpad 2 (Day (loc t)) @ '' '' @ zpad 2 (Hour (loc t)) @ '':''
               @ zpad 2 (Minute (loc t)) @ '':'' @ zpad 2 (Second (loc t)) @ ''.''
               @ zpad 6 (Nsec (loc t) div 1000) @ '' '')) \<and>
   (0 \<le> i \<and> i < 10 ^ w \<and> 0 < w \<longrightarrow> length (zpad w i) = w)"
  using formatHeader_cong [of l l'] Output_std_2009 [of l P R n] dateTime_2009 [of l t m]
    dateTime_full [of l t] length_zpad [of i w]
  by blast

theorem header_rendering_witness:
  "last_write (fst (Output ex_runtime ex_decl (ex_logger LstdFlags []) 2 ''message'' ErrorLevel))
     = ''2009/01/23 01:23:23 message'' @ [CHR 0x0A] \<and>
   formatHeader ex_decl (ex_logger LstdFlags []) [] ex_time ''/a/b/c/d.go'' 23 ErrorLevel
     = formatHeader ex_decl (ex_logger LstdFlags ''SUF'') [] ex_time ''/a/b/c/d.go'' 23
         ErrorLevel \<and>
   dateTime (ex_logger (Ldate OR Ltime OR Lmicroseconds) []) [] ex_time
     = Inr ''2009/01/23 01:23:23.123123 '' \<and>
   clock_Fields (loc ex_time) \<and>
   length (zpad 2 1) = 2"
proof -
  have a: "prefix (ex_logger f x) = []" "flag (ex_logger f x) = f"
    "isTerminal (ex_logger f x) = NotTerminal" "contentPrefix (ex_logger f x) = []"
    "suffix (ex_logger f x) = x" for f x
    by (simp_all add: ex_logger_def New_def)
  have b: "LstdFlags = Ldate OR Ltime" "(Ldate OR Ltime) AND LLevel ex_decl = 0"
    by (simp_all add: LstdFlags_def Ldate_def Ltime_def ex_decl_def)
  have c: "loc ex_time = clock_2009 123123456" "loc (Now ex_runtime) = clock_2009 123123456"
    by (simp_all add: ex_time_def ex_fields_def ex_runtime_def)
  have d: "clock_Fields (clock_2009 123123456)"
    by (simp add: clock_Fields_2009)
  show ?thesis
    using header_rendering [of "ex_logger LstdFlags []" "ex_logger LstdFlags ''SUF''" ex_decl
        "[]" ex_time "''/a/b/c/d.go''" 23 ErrorLevel ex_runtime 123123456 2 123123456 "[]" 1 2]
      header_rendering [of "ex_logger (Ldate OR Ltime OR Lmicroseconds) []"
        "ex_logger LstdFlags ''SUF''" ex_decl
        "[]" ex_time "''/a/b/c/d.go''" 23 ErrorLevel ex_runtime 123123456 2 123123456 "[]" 1 2]
    by (simp add: a b c d)
qed

section \<open>The end of the line\<close>

text \<open>
  Claim C4 as the code has it. One trailing newline of the body, when there is one, is
  stripped before the body is appended (\<open>body\<close>). After the padding and the suffix, one
  newline is appended when the assembled buffer is empty or does not end in a newline,
  and none otherwise, so every line written ends in a newline. The line ends in exactly
  one newline whenever the text before it does not end in one: a suffix that is not empty
  and does not end in a newline, or no suffix and a stripped body that is not empty and
  does not end in a newline.
\<close>

theorem line_ends_in_newline:
  assumes "go_Runtime R"
  shows "(s \<noteq> [] \<and> last s = CHR 0x0A \<longrightarrow> s = body s @ [CHR 0x0A]) \<and>
         (s = [] \<or> last s \<noteq> CHR 0x0A \<longrightarrow> body s = s) \<and>
         (let a = assembled R P l calldepth s lv;
              ln = last_write (fst (Output R P l calldepth s lv))
          in ln = (if a = [] \<or> last a \<noteq> CHR 0x0A then a @ [CHR 0x0A] else a) \<and>
             ln \<noteq> [] \<and> last ln = CHR 0x0A \<and> 1 \<le> trailing_newlines ln \<and>
             ((suffix l \<noteq> [] \<and> last (suffix l) \<noteq> CHR 0x0A) \<or>
              (suffix l = [] \<and> body s \<noteq> [] \<and> last (body s) \<noteq> CHR 0x0A)
                \<longrightarrow> ln = a @ [CHR 0x0A] \<and> trailing_newlines ln = 1))"
proof -
  define a where "a = assembled R P l calldepth s lv"
  define ln where "ln = last_write (fst (Output R P l calldepth s lv))"
  have ln: "ln = (if a = [] \<or> last a \<noteq> CHR 0x0A then a @ [CHR 0x0A] else a)"
    by (simp add: ln_def a_def last_write_Output [OF assms] line_text_def Let_def)
  have ne: "ln \<noteq> []" and la: "last ln = CHR 0x0A"
    by (auto simp: ln)
  have ge: "1 \<le> trailing_newlines ln"
    by (rule trailing_newlines_some [OF ne la])
  have one: "ln = a @ [CHR 0x0A] \<and> trailing_newlines ln = 1"
    if "(suffix l \<noteq> [] \<and> last (suffix l) \<noteq> CHR 0x0A) \<or>
        (suffix l = [] \<and> body s \<noteq> [] \<and> last (body s) \<noteq> CHR 0x0A)"
  proof -
    from that have "a \<noteq> [] \<and> last a \<noteq> CHR 0x0A"
      by (auto simp: a_def assembled_def)
    then show ?thesis
      by (simp add: ln trailing_newlines_snoc trailing_newlines_none)
  qed
  show ?thesis
    using body_cases [of s] ln ne la ge one
    unfolding Let_def a_def [symmetric] ln_def [symmetric] by blast
qed

theorem line_ends_in_newline_witness:
  "go_Runtime ex_runtime \<and>
   last_write (fst (Output ex_runtime ex_decl (ex_logger LstdFlags []) 2
      (''message'' @ [CHR 0x0A]) ErrorLevel)) = ''2009/01/23 01:23:23 message'' @ [CHR 0x0A] \<and>
   trailing_newlines (last_write (fst (Output ex_runtime ex_decl (ex_logger LstdFlags []) 2
      (''message'' @ [CHR 0x0A]) ErrorLevel))) = 1"
proof -
  have h: "go_Runtime ex_runtime" by (rule go_Runtime_ex)
  have s: "suffix (ex_logger LstdFlags []) = []"
    by (simp add: ex_logger_def New_def)
  have b: "body (''message'' @ [CHR 0x0A]) = ''message''" by (simp add: body_def)
  have a: "assembled ex_runtime ex_decl (ex_logger LstdFlags []) 2 (''message'' @ [CHR 0x0A])
      ErrorLevel = ''2009/01/23 01:23:23 message''"
    by code_simp
  show ?thesis
    using line_ends_in_newline [OF h, of "''message'' @ [CHR 0x0A]" ex_decl
        "ex_logger LstdFlags []" 2 ErrorLevel] h
    unfolding Let_def a s b by auto
qed

text \<open>
  The claim as it was stated fails: a body that ends in three newlines is written with two
  of them, and with a suffix that ends in a newline a body without a trailing newline gets
  no newline appended.
\<close>

theorem one_newline_counterexample:
  "last_write (fst (Output ex_runtime ex_decl (ex_logger 0 []) 2
      (''a'' @ [CHR 0x0A, CHR 0x0A, CHR 0x0A]) ErrorLevel)) = ''a'' @ [CHR 0x0A, CHR 0x0A] \<and>
   trailing_newlines (last_write (fst (Output ex_runtime ex_decl (ex_logger 0 []) 2
      (''a'' @ [CHR 0x0A, CHR 0x0A, CHR 0x0A]) ErrorLevel))) = 2 \<and>
   last_write (fst (Output ex_runtime ex_decl (ex_logger 0 (''x'' @ [CHR 0x0A])) 2 ''a'' ErrorLevel))
     = ''a'' @ replicate 65 CHR '' '' @ ''x'' @ [CHR 0x0A]"
  by code_simp

section \<open>Padding before the suffix\<close>

text \<open>
  Claim C5. With a suffix that is not empty: when the body, without its stripped newline,
  is shorter than 66 bytes, exactly 66 minus its length spaces stand between body and
  suffix; when it has 66 bytes or more, the suffix follows the body at once. With an empty
  suffix there is no padding: the body is followed by the final newline only.
\<close>

theorem suffix_padding:
  assumes "go_Runtime R"
  shows "(suffix l \<noteq> [] \<and> length (body s) < 66 \<longrightarrow>
            last_write (fst (Output R P l calldepth s lv))
              = header R P l calldepth lv @ contentPrefix l @ body s
                @ replicate (66 - length (body s)) CHR '' '' @ suffix l
                @ (if last (suffix l) = CHR 0x0A then [] else [CHR 0x0A])) \<and>
         (suffix l \<noteq> [] \<and> 66 \<le> length (body s) \<longrightarrow>
            last_write (fst (Output R P l calldepth s lv))
              = header R P l calldepth lv @ contentPrefix l @ body s @ suffix l
                @ (if last (suffix l) = CHR 0x0A then [] else [CHR 0x0A])) \<and>
         (suffix l = [] \<longrightarrow>
            last_write (fst (Output R P l calldepth s lv))
              = (let a = header R P l calldepth lv @ contentPrefix l @ body s
                 in if a = [] \<or> last a \<noteq> CHR 0x0A then a @ [CHR 0x0A] else a))"
  by (simp add: last_write_Output [OF assms] line_text_def assembled_def Let_def)

theorem suffix_padding_witness:
  "go_Runtime ex_runtime \<and>
   last_write (fst (Output ex_runtime ex_decl (ex_logger LstdFlags ''SUF'') 2 ''message''
       ErrorLevel))
     = ''2009/01/23 01:23:23 message'' @ replicate 59 CHR '' '' @ ''SUF'' @ [CHR 0x0A] \<and>
   last_write (fst (Output ex_runtime ex_decl (ex_logger LstdFlags ''SUF'') 2
       (replicate 66 CHR ''x'' @ [CHR 0x0A]) ErrorLevel))
     = ''2009/01/23 01:23:23 '' @ replicate 66 CHR ''x'' @ ''SUF'' @ [CHR 0x0A] \<and>
   last_write (fst (Output ex_runtime ex_decl (ex_logger LstdFlags []) 2 ''message''
       ErrorLevel))
     = ''2009/01/23 01:23:23 message'' @ [CHR 0x0A]"
proof -
  have h: "go_Runtime ex_runtime" by (rule go_Runtime_ex)
  have s: "suffix (ex_logger LstdFlags x) = x" and c: "contentPrefix (ex_logger LstdFlags x) = []"
    for x
    by (simp_all add: ex_logger_def New_def)
  have b: "body ''message'' = ''message''"
    and b': "body (replicate 66 CHR ''x'' @ [CHR 0x0A]) = replicate 66 CHR ''x''"
    by (simp_all add: body_def)
  have hd: "header ex_runtime ex_decl (ex_logger LstdFlags ''SUF'') 2 ErrorLevel
      = ''2009/01/23 01:23:23 ''"
    and hd': "header ex_runtime ex_decl (ex_logger LstdFlags []) 2 ErrorLevel
      = ''2009/01/23 01:23:23 ''"
    by code_simp+
  show ?thesis
    using suffix_padding [OF h, of "ex_logger LstdFlags ''SUF''" "''message''" ex_decl 2 ErrorLevel]
      suffix_padding [OF h, of "ex_logger LstdFlags ''SUF''"
        "replicate 66 CHR ''x'' @ [CHR 0x0A]" ex_decl 2 ErrorLevel]
      suffix_padding [OF h, of "ex_logger LstdFlags []" "''message''" ex_decl 2 ErrorLevel] h
    by (simp add: s c b b' hd hd')
qed

section \<open>When the caller cannot be found\<close>

text \<open>
  Claim C7. With the short-file or the long-file flag set and \<open>runtime.Caller\<close>
  answering \<open>ok = false\<close>, \<open>Output\<close> takes the file \<open>???\<close> and the line 0, the
  header ends in \<open>???:0: \<close>, and \<open>Output\<close> goes on to write the line: its result is
  the result of the write, so the failure to find the caller is never its error.
\<close>

theorem caller_failure_placeholder:
  assumes "flag l AND (Lshortfile OR Llongfile) \<noteq> 0"
    and "\<not> snd (snd (Caller R calldepth))"
    and "go_Runtime R"
  shows "callerInfo R l calldepth = (''???'', 0) \<and>
         fileLine l b ''???'' 0 = Inr (b @ ''???:0: '') \<and>
         (\<exists>b. dateTime l (levelTag P l (prefix l) lv) (Now R) = Inr b \<and>
              header R P l calldepth lv = b @ ''???:0: '') \<and>
         Output R P l calldepth s lv =
           (l\<lparr>buf := line_text R P l calldepth s lv,
              out := fst (Write (out l) (line_text R P l calldepth s lv))\<rparr>,
            Returns (snd (Write (out l) (line_text R P l calldepth s lv))))"
proof -
  have ci: "callerInfo R l calldepth = (''???'', 0)"
    using assms(1,2) by (cases "Caller R calldepth") (simp add: callerInfo_def)
  from assms(3) have "go_Time (Now R)" by (simp add: go_Runtime_def)
  from dateTime_Inr [OF this]
  obtain d where d: "dateTime l (levelTag P l (prefix l) lv) (Now R)
      = Inr (levelTag P l (prefix l) lv @ d)" by blast
  have "header R P l calldepth lv = (levelTag P l (prefix l) lv @ d) @ ''???:0: ''"
    by (simp add: header_def ci formatHeader_def d fileLine_lost [OF assms(1)])
  with d have hd: "\<exists>b. dateTime l (levelTag P l (prefix l) lv) (Now R) = Inr b \<and>
              header R P l calldepth lv = b @ ''???:0: ''" by blast
  show ?thesis
    using ci fileLine_lost [OF assms(1)] hd
    by (simp add: Output_Returns [OF assms(3)] Write_def)
qed

theorem caller_failure_placeholder_witness:
  "go_Runtime ex_lost_runtime \<and>
   flag (ex_logger Lshortfile []) AND (Lshortfile OR Llongfile) \<noteq> 0 \<and>
   \<not> snd (snd (Caller ex_lost_runtime 2)) \<and>
   header ex_lost_runtime ex_decl (ex_logger Lshortfile []) 2 ErrorLevel = ''???:0: '' \<and>
   snd (Output ex_lost_runtime ex_decl (ex_logger Lshortfile []) 2 ''message'' ErrorLevel)
     = Returns None"
proof -
  have h: "go_Runtime ex_lost_runtime" by (rule go_Runtime_ex_lost)
  have f: "flag (ex_logger Lshortfile []) AND (Lshortfile OR Llongfile) \<noteq> 0"
    by (simp add: ex_logger_def New_def Lshortfile_def Llongfile_def)
  have c: "\<not> snd (snd (Caller ex_lost_runtime 2))"
    by (simp add: ex_lost_runtime_def)
  have d: "dateTime (ex_logger Lshortfile [])
        (levelTag ex_decl (ex_logger Lshortfile []) (prefix (ex_logger Lshortfile [])) ErrorLevel)
        (Now ex_lost_runtime) = Inr []"
    by (simp add: dateTime_def levelTag_def ex_logger_def New_def ex_decl_def Lshortfile_def
        Ldate_def Ltime_def Lmicroseconds_def)
  have w: "snd (Write (out (ex_logger Lshortfile [])) x) = None" for x
    by (simp add: Write_def ex_logger_def New_def ex_writer_def)
  show ?thesis
    using caller_failure_placeholder [OF f c h, of "[]" ex_decl ErrorLevel "''message''"] h f c
    unfolding d w by simp
qed

section \<open>Output: one write, and its error is the result\<close>

lemma ex_failing_line:
  "line_text ex_runtime ex_decl (SetOutput (ex_logger LstdFlags []) ex_failing_writer) 2
     ''message'' ErrorLevel = ''2009/01/23 01:23:23 message'' @ [CHR 0x0A]"
  by code_simp

text \<open>
  Claim C8. Every call of \<open>Output\<close> makes exactly one \<open>Write\<close> call on the sink, with
  the assembled line (the logger's buffer), and the result of \<open>Output\<close> is the error of
  that call, \<open>nil\<close> or not: the writer's history grows by this one line whatever the
  writer answers, so a failure is handed on once, with no second attempt and nothing kept
  for later.
\<close>

theorem Output_one_write:
  assumes "go_Runtime R"
  shows "out (fst (Output R P l calldepth s lv))
           = fst (Write (out l) (line_text R P l calldepth s lv)) \<and>
         snd (Output R P l calldepth s lv)
           = Returns (snd (Write (out l) (line_text R P l calldepth s lv))) \<and>
         written (out (fst (Output R P l calldepth s lv)))
           = written (out l) @ [buf (fst (Output R P l calldepth s lv))] \<and>
         buf (fst (Output R P l calldepth s lv)) = line_text R P l calldepth s lv"
  by (simp add: Output_Returns [OF assms] Write_def)

theorem Output_one_write_witness:
  "go_Runtime ex_runtime \<and>
   snd (Output ex_runtime ex_decl (SetOutput (ex_logger LstdFlags []) ex_failing_writer) 2
          ''message'' ErrorLevel) = Returns (Some (Err ''disk full'')) \<and>
   written (out (fst (Output ex_runtime ex_decl
       (SetOutput (ex_logger LstdFlags []) ex_failing_writer) 2 ''message'' ErrorLevel)))
     = [''2009/01/23 01:23:23 message'' @ [CHR 0x0A]]"
proof -
  have h: "go_Runtime ex_runtime" by (rule go_Runtime_ex)
  have o: "out (SetOutput (ex_logger LstdFlags []) ex_failing_writer) = ex_failing_writer"
    by (simp add: SetOutput_def)
  show ?thesis
    using Output_one_write [OF h, of ex_decl "SetOutput (ex_logger LstdFlags []) ex_failing_writer"
        2 "''message''" ErrorLevel] h
    unfolding ex_failing_line o by (simp add: Write_def ex_failing_writer_def)
qed

section \<open>The level gate\<close>

lemma call_Output_Returns:
  "go_Runtime R \<Longrightarrow>
     call_Output R P (st\<lparr>formatted := Suc (formatted st)\<rparr>) s lv
       = (logged R P st s lv, Returns ())"
  by (simp add: call_Output_def Output_Returns logged_def)

lemma written_logged:
  "go_Runtime R \<Longrightarrow>
     written (out (logger (logged R P st s lv)))
       = written (out (logger st)) @ [line_text R P (logger st) (callDepth (logger st)) s lv]"
  by (simp add: logged_def Output_Returns)

lemma gated_pass:
  assumes "go_Runtime R" and "rank L \<le> level (logger st)"
  shows "emit L V F R P st format v = (logged R P st (message V F format v) (rank L), Returns ())"
  using assms(2)
  by (cases L; cases V)
    (simp_all add: fmt_call_def call_Output_Returns [OF assms(1)]
      Error_def Errorf_def Errorln_def Warn_def Warnf_def Warnln_def Info_def Infof_def
      Infoln_def Debug_def Debugf_def Debugln_def Verbose_def Verbosef_def Verboseln_def)

lemma gated_block:
  assumes "\<not> rank L \<le> level (logger st)"
  shows "emit L V F R P st format v = (st, Returns ())"
  using assms
  by (cases L; cases V)
    (simp_all add: Error_def Errorf_def Errorln_def Warn_def Warnf_def Warnln_def Info_def
      Infof_def Infoln_def Debug_def Debugf_def Debugln_def Verbose_def Verbosef_def
      Verboseln_def)

lemma ex_warn_line:
  "line_text ex_runtime ex_decl (logger (ex_state WarnLevel))
     (callDepth (logger (ex_state WarnLevel))) (message Formatted ex_fmt ''message'' [])
     (rank GError) = ''2009/01/23 01:23:23 message'' @ [CHR 0x0A]"
  by code_simp

text \<open>
  Claim C1. For each level \<open>L\<close> of Error, Warn, Info, Debug and Verbose, each of its three
  methods and every configured level, the call writes to the sink exactly when
  \<open>rank L\<close> is at most the configured level, in the order Panic = 0 < Fatal < Error <
  Warn < Info < Debug < Verbose. When it writes, it has formatted once and the sink has
  one more line; when it does not, the state is unchanged: nothing was formatted and
  nothing written.
\<close>

theorem gated_emit:
  assumes "go_Runtime R"
  shows "(rank L \<le> level (logger st) \<longrightarrow>
            emit L V F R P st format v
              = (logged R P st (message V F format v) (rank L), Returns ()) \<and>
            formatted (fst (emit L V F R P st format v)) = formatted st + 1 \<and>
            written (out (logger (fst (emit L V F R P st format v))))
              = written (out (logger st))
                @ [line_text R P (logger st) (callDepth (logger st)) (message V F format v)
                     (rank L)]) \<and>
         (\<not> rank L \<le> level (logger st) \<longrightarrow> emit L V F R P st format v = (st, Returns ())) \<and>
         (written (out (logger (fst (emit L V F R P st format v)))) \<noteq> written (out (logger st)))
           = (rank L \<le> level (logger st)) \<and>
         PanicLevel = 0 \<and> PanicLevel < FatalLevel \<and> FatalLevel < ErrorLevel \<and>
         ErrorLevel < WarnLevel \<and> WarnLevel < InfoLevel \<and> InfoLevel < DebugLevel \<and>
         DebugLevel < VerboseLevel"
proof (cases "rank L \<le> level (logger st)")
  case True
  have f: "formatted (logged R P st (message V F format v) (rank L)) = formatted st + 1"
    by (simp add: logged_def)
  show ?thesis
    using True
    by (simp add: gated_pass [OF assms True] written_logged [OF assms] f
        PanicLevel_def FatalLevel_def ErrorLevel_def WarnLevel_def InfoLevel_def
        DebugLevel_def VerboseLevel_def)
next
  case False
  show ?thesis
    using False
    by (simp add: gated_block [OF False] PanicLevel_def FatalLevel_def ErrorLevel_def
        WarnLevel_def InfoLevel_def DebugLevel_def VerboseLevel_def)
qed

theorem gated_emit_witness:
  "go_Runtime ex_runtime \<and>
   rank GError \<le> level (logger (ex_state WarnLevel)) \<and>
   written (out (logger (fst (emit GError Formatted ex_fmt ex_runtime ex_decl
       (ex_state WarnLevel) ''message'' []))))
     = [''2009/01/23 01:23:23 message'' @ [CHR 0x0A]] \<and>
   \<not> rank GDebug \<le> level (logger (ex_state WarnLevel)) \<and>
   emit GDebug Formatted ex_fmt ex_runtime ex_decl (ex_state WarnLevel) ''message'' []
     = (ex_state WarnLevel, Returns ())"
proof -
  have h: "go_Runtime ex_runtime" by (rule go_Runtime_ex)
  have l: "level (logger (ex_state WarnLevel)) = 3"
    and w: "written (out (logger (ex_state WarnLevel))) = []"
    by (simp_all add: ex_state_def SetLevel_def ex_logger_def New_def WarnLevel_def
        ex_writer_def)
  show ?thesis
    using gated_emit [OF h, of GError "ex_state WarnLevel" Formatted ex_fmt ex_decl
        "''message''" "[]"]
      gated_emit [OF h, of GDebug "ex_state WarnLevel" Formatted ex_fmt ex_decl
        "''message''" "[]"] h
    unfolding ex_warn_line l w by (auto simp: ErrorLevel_def DebugLevel_def)
qed

section \<open>Panic and Fatal\<close>

lemma panic_family:
  assumes "go_Runtime R"
  shows "Panic F R P st v
           = (logged R P st (Sprint F v) PanicLevel, Panics (PanicString (Sprint F v)))"
    and "Panicf F R P st format v
           = (logged R P st (Sprintf F format v) PanicLevel,
              Panics (PanicString (Sprintf F format v)))"
    and "Panicln F R P st v
           = (logged R P st (Sprintln F v) PanicLevel, Panics (PanicString (Sprintln F v)))"
  by (simp_all add: Panic_def Panicf_def Panicln_def fmt_call_def
      call_Output_Returns [OF assms])

lemma fatal_family:
  assumes "go_Runtime R"
  shows "Fatal F R P st v = (logged R P st (Sprint F v) FatalLevel, Exits 1)"
    and "Fatalf F R P st format v = (logged R P st (Sprintf F format v) FatalLevel, Exits 1)"
    and "Fatalln F R P st v = (logged R P st (Sprintln F v) FatalLevel, Exits 1)"
  by (simp_all add: Fatal_def Fatalf_def Fatalln_def fmt_call_def
      call_Output_Returns [OF assms])

lemma ex_panic_line:
  "line_text ex_runtime ex_decl (logger (ex_state PanicLevel))
     (callDepth (logger (ex_state PanicLevel))) ''boom'' PanicLevel
     = ''2009/01/23 01:23:23 boom'' @ [CHR 0x0A]"
  "line_text ex_runtime ex_decl (logger (ex_state PanicLevel))
     (callDepth (logger (ex_state PanicLevel))) (''boom'' @ [CHR 0x0A]) FatalLevel
     = ''2009/01/23 01:23:23 boom'' @ [CHR 0x0A]"
  by code_simp+

text \<open>
  Claim C2. Whatever the configured level, the three Panic methods call \<open>Output\<close> at
  the Panic level and then panic with exactly the formatted string, and the three Fatal
  methods call \<open>Output\<close> at the Fatal level and then exit with status 1. In the state
  in which the panic or the exit happens the sink already holds the line.
\<close>

theorem panic_fatal_log_first:
  assumes "go_Runtime R"
  shows "Panic F R P st v
           = (logged R P st (Sprint F v) PanicLevel, Panics (PanicString (Sprint F v))) \<and>
         Panicf F R P st format v
           = (logged R P st (Sprintf F format v) PanicLevel,
              Panics (PanicString (Sprintf F format v))) \<and>
         Panicln F R P st v
           = (logged R P st (Sprintln F v) PanicLevel,
              Panics (PanicString (Sprintln F v))) \<and>
         Fatal F R P st v = (logged R P st (Sprint F v) FatalLevel, Exits 1) \<and>
         Fatalf F R P st format v
           = (logged R P st (Sprintf F format v) FatalLevel, Exits 1) \<and>
         Fatalln F R P st v = (logged R P st (Sprintln F v) FatalLevel, Exits 1) \<and>
         logger (logged R P st s lv)
           = fst (Output R P (logger st) (callDepth (logger st)) s lv) \<and>
         written (out (logger (logged R P st s lv)))
           = written (out (logger st))
             @ [line_text R P (logger st) (callDepth (logger st)) s lv]"
  by (simp add: panic_family [OF assms] fatal_family [OF assms] written_logged [OF assms])
    (simp add: logged_def)

theorem panic_fatal_log_first_witness:
  "go_Runtime ex_runtime \<and>
   snd (Panicf ex_fmt ex_runtime ex_decl (ex_state PanicLevel) ''boom'' [])
     = Panics (PanicString ''boom'') \<and>
   written (out (logger (fst (Panicf ex_fmt ex_runtime ex_decl (ex_state PanicLevel)
       ''boom'' [])))) = [''2009/01/23 01:23:23 boom'' @ [CHR 0x0A]] \<and>
   snd (Fatalln ex_fmt ex_runtime ex_decl (ex_state PanicLevel) [''boom'']) = Exits 1 \<and>
   written (out (logger (fst (Fatalln ex_fmt ex_runtime ex_decl (ex_state PanicLevel)
       [''boom''])))) = [''2009/01/23 01:23:23 boom'' @ [CHR 0x0A]]"
proof -
  have h: "go_Runtime ex_runtime" by (rule go_Runtime_ex)
  have w: "written (out (logger (ex_state PanicLevel))) = []"
    by (simp add: ex_state_def SetLevel_def ex_logger_def New_def ex_writer_def)
  have f: "Sprintf ex_fmt ''boom'' [] = ''boom''"
    "Sprintln ex_fmt [''boom''] = ''boom'' @ [CHR 0x0A]"
    by (simp_all add: ex_fmt_def)
  note p = panic_fatal_log_first [OF h, of ex_fmt ex_decl "ex_state PanicLevel" "[]"
      "''boom''" "''boom''" PanicLevel, unfolded f ex_panic_line w append_Nil]
  note q = panic_fatal_log_first [OF h, of ex_fmt ex_decl "ex_state PanicLevel" "[''boom'']"
      "''boom''" "''boom'' @ [CHR 0x0A]" FatalLevel, unfolded f ex_panic_line w append_Nil]
  from p have p1: "Panicf ex_fmt ex_runtime ex_decl (ex_state PanicLevel) ''boom'' []
      = (logged ex_runtime ex_decl (ex_state PanicLevel) ''boom'' PanicLevel,
         Panics (PanicString ''boom''))"
    and p2: "written (out (logger (logged ex_runtime ex_decl (ex_state PanicLevel) ''boom''
        PanicLevel))) = [''2009/01/23 01:23:23 boom'' @ [CHR 0x0A]]"
    by blast+
  from q have q1: "Fatalln ex_fmt ex_runtime ex_decl (ex_state PanicLevel) [''boom'']
      = (logged ex_runtime ex_decl (ex_state PanicLevel) (''boom'' @ [CHR 0x0A]) FatalLevel,
         Exits 1)"
    and q2: "written (out (logger (logged ex_runtime ex_decl (ex_state PanicLevel)
        (''boom'' @ [CHR 0x0A]) FatalLevel))) = [''2009/01/23 01:23:23 boom'' @ [CHR 0x0A]]"
    by blast+
  show ?thesis
    using h p1 p2 q1 q2 by simp
qed

section \<open>Setters and getters\<close>

text \<open>
  Claim C9. For each of level, flags, prefix, content prefix and suffix, and every value,
  the getter after the setter returns that value, and the setter changes no other field
  of the Logger: putting the old value of the field back gives the old Logger. A setter
  takes every value of its type and has no error result.
\<close>

theorem setters_getters:
  "Level (SetLevel l lv) = lv \<and> (SetLevel l lv)\<lparr>level := level l\<rparr> = l \<and>
   Flags (SetFlags l f) = f \<and> (SetFlags l f)\<lparr>flag := flag l\<rparr> = l \<and>
   Prefix (SetPrefix l p) = p \<and> (SetPrefix l p)\<lparr>prefix := prefix l\<rparr> = l \<and>
   ContentPrefix (SetContentPrefix l c) = c \<and>
     (SetContentPrefix l c)\<lparr>contentPrefix := contentPrefix l\<rparr> = l \<and>
   Suffix (SetSuffix l x) = x \<and> (SetSuffix l x)\<lparr>suffix := suffix l\<rparr> = l"
  by (simp add: Level_def SetLevel_def Flags_def SetFlags_def Prefix_def SetPrefix_def
      ContentPrefix_def SetContentPrefix_def Suffix_def SetSuffix_def)

section \<open>File and line in the header\<close>

text \<open>
  With the short-file flag a path with a directory part that is not empty is cut to what
  follows its last slash, and a path with no slash after its first byte is kept whole;
  the line number is rendered in decimal without padding. The two renderings of the
  documentation are computed.
\<close>

lemma short_loop_keeps:
  "CHR ''/'' \<notin> set (tl file) \<Longrightarrow> i < length file \<Longrightarrow> short_loop file i = file"
proof (induction i)
  case 0
  show ?case by simp
next
  case (Suc i)
  from Suc.prems have "file ! Suc i = tl file ! i" and "i < length (tl file)"
    by (simp_all add: nth_tl)
  with Suc.prems have "file ! Suc i \<noteq> CHR ''/''" by (metis nth_mem)
  with Suc show ?case by simp
qed

lemma short_loop_strips:
  assumes "CHR ''/'' \<notin> set name" and "dir \<noteq> []"
  shows "k \<le> length name \<Longrightarrow> short_loop (dir @ CHR ''/'' # name) (length dir + k) = name"
proof (induction k)
  case 0
  from assms(2) obtain m where m: "length dir = Suc m" by (cases dir) auto
  show ?case by (simp add: m nth_append)
next
  case (Suc k)
  then have "k < length name" by simp
  then have "name ! k \<noteq> CHR ''/''" using assms(1) by (metis nth_mem)
  moreover have "(dir @ CHR ''/'' # name) ! Suc (length dir + k) = name ! k"
    by (simp add: nth_append)
  ultimately show ?case using Suc by simp
qed

lemma fileLine_short:
  assumes "flag l AND (Lshortfile OR Llongfile) \<noteq> 0" and "flag l AND Lshortfile \<noteq> 0"
    and "CHR ''/'' \<notin> set name" and "dir \<noteq> []" and "0 \<le> line" and "go_int line"
  shows "fileLine l b (dir @ CHR ''/'' # name) line
           = Inr (b @ name @ '':'' @ decimal (nat line) @ '': '')"
  using short_loop_strips [OF assms(3,4), of "length name"] assms(1,2)
  by (simp add: fileLine_def itoa_decimal [OF assms(5,6)] zpad_def)

lemma fileLine_examples:
  "fileLine (ex_logger Lshortfile []) [] ''/a/b/c/d.go'' 23 = Inr ''d.go:23: ''"
  "fileLine (ex_logger Llongfile []) [] ''/a/b/c/d.go'' 23 = Inr ''/a/b/c/d.go:23: ''"
  by code_simp+

text \<open>
  Claim C6 at the input where the code departs from it. The loop looks for the last slash
  from the end down to index 1 and never at index 0, so for the path \<open>/d.go\<close>, whose
  last slash is its first byte, the short-file flag renders \<open>/d.go:23: \<close> and not the
  final element \<open>d.go:23: \<close>.
\<close>

theorem shortfile_root_path:
  "fileLine (ex_logger Lshortfile []) [] ''/d.go'' 23 = Inr ''/d.go:23: ''"
  by code_simp

section \<open>MD5\<close>

lemma hex_digit: "k < 16 \<Longrightarrow> hextable ! k \<in> set hextable"
  by (rule nth_mem) (simp add: hextable_def)

lemma of_char_less: "(of_char v :: nat) < 256"
  by (metis mod_less_divisor of_char_mod_256 zero_less_numeral)

lemma high_nibble: "drop_bit 4 (of_char v :: nat) < 16"
proof -
  have "(of_char v :: nat) div 16 < 16" using of_char_less [of v] by arith
  then show ?thesis by (simp add: drop_bit_eq_div)
qed

lemma low_nibble: "(n :: nat) AND 15 < 16"
proof -
  have "n AND 15 = n AND mask 4" by (simp add: mask_eq_exp_minus_1)
  also have "\<dots> = take_bit 4 n" by (simp add: take_bit_eq_mask)
  also have "\<dots> = n mod 16" by (simp add: take_bit_eq_mod)
  finally show ?thesis by simp
qed

lemma set_EncodeToString: "set (EncodeToString src) \<subseteq> set hextable"
proof (induction src)
  case Nil
  show ?case by simp
next
  case (Cons v src)
  show ?case using Cons by (simp add: hex_digit high_nibble low_nibble)
qed

lemma length_EncodeToString: "length (EncodeToString src) = 2 * length src"
  by (induction src) simp_all

lemma length_le_bytes: "length (le_bytes n x) = n"
  by (simp add: le_bytes_def)

lemma length_md5_sum: "length (md5_sum m) = 16"
  by (simp add: md5_sum_def Let_def length_le_bytes split: prod.split)

lemma md5_hasher_contract: "md5_contract md5_hasher"
  by (simp add: md5_contract_def md5_hasher_def length_md5_sum)

lemma md5_abc:
  "EncodeToString (hasher_Sum md5_hasher (fst (hasher_Write md5_hasher
      (md5_New md5_hasher) ''abc'')) []) = ''900150983cd24fb0d6963f7d28e17f72''"
  by code_simp

text \<open>
  Claim C10. When the hasher keeps the contract of \<open>hash.Hash\<close> (\<open>Write\<close> never
  returns an error, \<open>Sum\<close> appends the 16 bytes of the digest), \<open>MD5\<close> returns a
  \<open>nil\<close> error for every input, together with the hexadecimal encoding of the digest:
  32 characters, each a digit or a letter from \<open>a\<close> to \<open>f\<close>. \<open>MD5String\<close> of a
  string is \<open>MD5\<close> of its bytes.
\<close>

theorem MD5_digest:
  assumes "md5_contract H"
  shows "snd (MD5 H data) = None \<and>
         fst (MD5 H data)
           = EncodeToString (hasher_Sum H (fst (hasher_Write H (md5_New H) data)) []) \<and>
         length (fst (MD5 H data)) = 32 \<and>
         set (fst (MD5 H data)) \<subseteq> set ''0123456789abcdef'' \<and>
         MD5String H str = MD5 H str"
proof -
  obtain h n e where w: "hasher_Write H (md5_New H) data = (h, n, e)"
    by (cases "hasher_Write H (md5_New H) data") auto
  from assms have "snd (snd (hasher_Write H (md5_New H) data)) = None"
    by (simp add: md5_contract_def)
  with w have e: "e = None" by simp
  from assms have l: "length (hasher_Sum H h []) = 16"
    by (simp add: md5_contract_def)
  have m: "MD5 H data = (EncodeToString (hasher_Sum H h []), None)"
    by (simp add: MD5_def w e)
  show ?thesis
    using set_EncodeToString [of "hasher_Sum H h []"]
    by (simp add: m w MD5String_def length_EncodeToString l hextable_def)
qed

theorem MD5_digest_witness:
  "md5_contract md5_hasher \<and>
   MD5 md5_hasher ''abc'' = (''900150983cd24fb0d6963f7d28e17f72'', None) \<and>
   MD5String md5_hasher ''abc'' = MD5 md5_hasher ''abc''"
proof -
  have h: "md5_contract md5_hasher" by (rule md5_hasher_contract)
  show ?thesis
    using MD5_digest [OF h, of "''abc''" "''abc''"] h unfolding md5_abc
    by (simp add: prod_eq_iff)
qed

end
